theory Spec2Isabelle
  imports Complex_Main "HOL-Library.Word"
begin

section \<open>The gender-classification notebook (assets/21\_kernelsvm/plt/Gender.ipynb)\<close>

text \<open>
  The first code cell of the notebook is embedded function by function. The notebook's
  global variables (\<open>D\<close>, \<open>ProjectionMatrix\<close>, \<open>x_mean\<close>, \<open>x_var\<close>, the id
  ranges) are explicit parameters of the functions that read them; the values the
  notebook assigns to them are the constants \<open>D\<close>, \<open>d\<close>, \<open>train_ids\<close>,
  \<open>test_ids\<close>, \<open>view_ids\<close> below. What the notebook takes from outside (the file
  system behind \<open>misc.imread\<close>, the matrix drawn by \<open>np.random.randn\<close>, the
  classifier) is a parameter as well. An exception is a value \<open>Inl e\<close>: a function
  that can raise returns a sum. Left out are \<open>print(train_ids)\<close>, the assignments of
  \<open>None\<close> that free the full matrices, and the later cells, which fit another
  classifier on the same matrices or read a prepared data file.
\<close>

subsection \<open>Errors\<close>

text \<open>The Python exceptions that the cell can raise.\<close>

datatype error = IOError | IndexError | ValueError

subsection \<open>Dataset enumerator\<close>

definition path :: string where
  "path = ''../../data/AR/''"

text \<open>
  \<open>str\<close> of an integer: the decimal digits, with a leading minus sign for a negative
  number. The ids are the integers of \<open>np.arange\<close>.
\<close>

definition digit_char :: "nat \<Rightarrow> char" where
  "digit_char k = ''0123456789'' ! k"

fun digits :: "nat \<Rightarrow> string" where
  "digits n = (if n < 10 then [digit_char n] else digits (n div 10) @ [digit_char (n mod 10)])"

declare digits.simps [simp del]

definition str :: "int \<Rightarrow> string" where
  "str n = (if n < 0 then CHR ''-'' # digits (nat (- n)) else digits (nat n))"

text \<open>
  \<open>s.zfill(width)\<close>: pads with zeros on the left up to \<open>width\<close> characters; a leading
  sign stays in front of the zeros; a string that is already long enough is returned as
  it is.
\<close>

definition zfill :: "string \<Rightarrow> nat \<Rightarrow> string" where
  "zfill s width =
     (if width \<le> length s then s
      else (case s of
              c # cs \<Rightarrow>
                if c = CHR ''+'' \<or> c = CHR ''-''
                then c # replicate (width - length s) CHR ''0'' @ cs
                else replicate (width - length s) CHR ''0'' @ s
            | [] \<Rightarrow> replicate width CHR ''0''))"

text \<open>The file name built in the body of the inner loop.\<close>

definition fn_of :: "string \<Rightarrow> int \<Rightarrow> int \<Rightarrow> string" where
  "fn_of pre im_id v_id =
     path @ pre @ zfill (str im_id) 3 @ ''-'' @ zfill (str v_id) 2 @ ''.bmp''"

text \<open>
  The two nested \<open>for\<close> loops of \<open>build_list_fn\<close>, each appending to \<open>list_fn\<close>.
\<close>

fun view_loop :: "string \<Rightarrow> int \<Rightarrow> int list \<Rightarrow> string list \<Rightarrow> string list" where
  "view_loop pre im_id [] list_fn = list_fn"
| "view_loop pre im_id (v_id # vs) list_fn =
     view_loop pre im_id vs (list_fn @ [fn_of pre im_id v_id])"

fun img_loop :: "string \<Rightarrow> int list \<Rightarrow> int list \<Rightarrow> string list \<Rightarrow> string list" where
  "img_loop pre [] view_ids list_fn = list_fn"
| "img_loop pre (im_id # ims) view_ids list_fn =
     img_loop pre ims view_ids (view_loop pre im_id view_ids list_fn)"

definition build_list_fn :: "string \<Rightarrow> int list \<Rightarrow> int list \<Rightarrow> string list" where
  "build_list_fn pre img_ids view_ids = img_loop pre img_ids view_ids []"

subsection \<open>Numbers\<close>

text \<open>
  The entries of the arrays are numpy \<open>float64\<close> values. They are modelled as the
  rational numbers extended with the three special values of IEEE 754 arithmetic. The
  arithmetic on the special values is the IEEE one (numpy does not raise on a division by
  zero: it returns an infinity or a NaN). On finite values the model computes exactly:
  rounding, overflow to infinity and the sign of zero are not modelled, and the theorems
  below are chosen not to depend on them.
\<close>

datatype npfloat = Fin rat | PInf | NInf | NaN

fun is_finite :: "npfloat \<Rightarrow> bool" where
  "is_finite (Fin a) = True"
| "is_finite PInf = False"
| "is_finite NInf = False"
| "is_finite NaN = False"

fun fneg :: "npfloat \<Rightarrow> npfloat" where
  "fneg (Fin a) = Fin (- a)"
| "fneg PInf = NInf"
| "fneg NInf = PInf"
| "fneg NaN = NaN"

fun fadd :: "npfloat \<Rightarrow> npfloat \<Rightarrow> npfloat" where
  "fadd (Fin a) (Fin b) = Fin (a + b)"
| "fadd NaN y = NaN"
| "fadd x NaN = NaN"
| "fadd PInf NInf = NaN"
| "fadd NInf PInf = NaN"
| "fadd PInf y = PInf"
| "fadd x PInf = PInf"
| "fadd NInf y = NInf"
| "fadd x NInf = NInf"

definition fsub :: "npfloat \<Rightarrow> npfloat \<Rightarrow> npfloat" where
  "fsub x y = fadd x (fneg y)"

text \<open>An infinity times \<open>y\<close>, up to the sign of the infinity.\<close>

fun inf_times :: "npfloat \<Rightarrow> npfloat" where
  "inf_times (Fin b) = (if b = 0 then NaN else if 0 < b then PInf else NInf)"
| "inf_times PInf = PInf"
| "inf_times NInf = NInf"
| "inf_times NaN = NaN"

fun fmul :: "npfloat \<Rightarrow> npfloat \<Rightarrow> npfloat" where
  "fmul (Fin a) (Fin b) = Fin (a * b)"
| "fmul NaN y = NaN"
| "fmul x NaN = NaN"
| "fmul PInf y = inf_times y"
| "fmul NInf y = fneg (inf_times y)"
| "fmul x PInf = inf_times x"
| "fmul x NInf = fneg (inf_times x)"

fun fdiv :: "npfloat \<Rightarrow> npfloat \<Rightarrow> npfloat" where
  "fdiv (Fin a) (Fin b) =
     (if b = 0 then (if a = 0 then NaN else if 0 < a then PInf else NInf)
      else Fin (a / b))"
| "fdiv NaN y = NaN"
| "fdiv x NaN = NaN"
| "fdiv (Fin a) PInf = Fin 0"
| "fdiv (Fin a) NInf = Fin 0"
| "fdiv PInf (Fin b) = (if 0 \<le> b then PInf else NInf)"
| "fdiv NInf (Fin b) = (if 0 \<le> b then NInf else PInf)"
| "fdiv PInf y = NaN"
| "fdiv NInf y = NaN"

text \<open>Sum and mean of a vector; the mean of an empty vector is \<open>0 / 0\<close>, a NaN.\<close>

definition fsum :: "npfloat list \<Rightarrow> npfloat" where
  "fsum xs = foldl fadd (Fin 0) xs"

definition fmean :: "npfloat list \<Rightarrow> npfloat" where
  "fmean xs = fdiv (fsum xs) (Fin (of_nat (length xs)))"

text \<open>\<open>np.var\<close> with its default \<open>ddof = 0\<close>: the mean of the squared deviations.\<close>

definition fvar :: "npfloat list \<Rightarrow> npfloat" where
  "fvar xs = (let m = fmean xs in fmean (map (\<lambda>x. fmul (fsub x m) (fsub x m)) xs))"

subsection \<open>Arrays\<close>

text \<open>
  A two-dimensional array carries its shape, as an \<open>ndarray\<close> does, so that an array
  with no row still has a number of columns.
\<close>

record array2 =
  shape0 :: nat
  shape1 :: nat
  rows :: "npfloat list list"

definition wf_array2 :: "array2 \<Rightarrow> bool" where
  "wf_array2 A \<longleftrightarrow> length (rows A) = shape0 A \<and> (\<forall>r \<in> set (rows A). length r = shape1 A)"

definition zeros :: "nat \<Rightarrow> nat \<Rightarrow> array2" where
  "zeros n m = \<lparr>shape0 = n, shape1 = m, rows = replicate n (replicate m (Fin 0))\<rparr>"

definition column :: "array2 \<Rightarrow> nat \<Rightarrow> npfloat list" where
  "column A j = map (\<lambda>r. r ! j) (rows A)"

text \<open>\<open>A.mean(axis = 0)\<close> and \<open>A.var(axis = 0)\<close>: one value per column.\<close>

definition mean_axis0 :: "array2 \<Rightarrow> npfloat list" where
  "mean_axis0 A = map (\<lambda>j. fmean (column A j)) [0..<shape1 A]"

definition var_axis0 :: "array2 \<Rightarrow> npfloat list" where
  "var_axis0 A = map (\<lambda>j. fvar (column A j)) [0..<shape1 A]"

text \<open>
  \<open>np.dot\<close> of two two-dimensional arrays: the matrix product, a \<open>ValueError\<close> when
  the inner dimensions differ.
\<close>

definition inner :: "npfloat list \<Rightarrow> npfloat list \<Rightarrow> npfloat" where
  "inner r c = fsum (map2 fmul r c)"

definition vec_mat :: "npfloat list \<Rightarrow> array2 \<Rightarrow> npfloat list" where
  "vec_mat r B = map (\<lambda>j. inner r (column B j)) [0..<shape1 B]"

definition dot :: "array2 \<Rightarrow> array2 \<Rightarrow> error + array2" where
  "dot A B =
     (if shape1 A \<noteq> shape0 B then Inl ValueError
      else Inr \<lparr>shape0 = shape0 A, shape1 = shape1 B, rows = map (\<lambda>r. vec_mat r B) (rows A)\<rparr>)"

text \<open>
  An arithmetic operator between a two-dimensional array and a vector, with numpy's
  broadcasting: the vector runs along the rows; a dimension of length 1 is stretched; any
  other mismatch is a \<open>ValueError\<close>.
\<close>

definition broadcast :: "(npfloat \<Rightarrow> npfloat \<Rightarrow> npfloat) \<Rightarrow> array2 \<Rightarrow> npfloat list \<Rightarrow> error + array2" where
  "broadcast f A v =
     (if shape1 A = length v then Inr (A\<lparr>rows := map (\<lambda>r. map2 f r v) (rows A)\<rparr>)
      else if shape1 A = 1 then
        Inr \<lparr>shape0 = shape0 A, shape1 = length v,
             rows = map (\<lambda>r. map (\<lambda>y. f (r ! 0) y) v) (rows A)\<rparr>
      else if length v = 1 then Inr (A\<lparr>rows := map (\<lambda>r. map (\<lambda>x. f x (v ! 0)) r) (rows A)\<rparr>)
      else Inl ValueError)"

subsection \<open>Image loader and vectorizer\<close>

text \<open>
  What \<open>misc.imread\<close> returns for a bitmap: an array of bytes with two dimensions (a
  grayscale file) or three (height, width, channels). The constructors carry the shape.
\<close>

datatype image =
  Gray nat nat "8 word list list"
| Colour nat nat nat "8 word list list list"

fun wf_image :: "image \<Rightarrow> bool" where
  "wf_image (Gray h w g) \<longleftrightarrow> length g = h \<and> (\<forall>r \<in> set g. length r = w)"
| "wf_image (Colour h w c p) \<longleftrightarrow>
     length p = h \<and> (\<forall>r \<in> set p. length r = w \<and> (\<forall>q \<in> set r. length q = c))"

text \<open>An \<open>imread\<close> whose arrays have the shape they declare, as every \<open>ndarray\<close> has.\<close>

definition wf_imread :: "(string \<Rightarrow> error + image) \<Rightarrow> bool" where
  "wf_imread imread \<longleftrightarrow> (\<forall>filename im. imread filename = Inr im \<longrightarrow> wf_image im)"

definition of_u8 :: "8 word \<Rightarrow> npfloat" where
  "of_u8 b = Fin (of_nat (unat b))"

text \<open>The weighted sum of the first three channels of one pixel.\<close>

definition gray_of :: "8 word list \<Rightarrow> npfloat" where
  "gray_of q =
     fadd (fadd (fmul (of_u8 (q ! 0)) (Fin (299 / 1000))) (fmul (of_u8 (q ! 1)) (Fin (587 / 1000))))
          (fmul (of_u8 (q ! 2)) (Fin (114 / 1000)))"

text \<open>
  \<open>rgb[:, :, k]\<close> raises an \<open>IndexError\<close> on an array with two dimensions, and on one
  whose last dimension is not longer than \<open>k\<close>.
\<close>

fun rgb2gray :: "image \<Rightarrow> error + array2" where
  "rgb2gray (Gray h w g) = Inl IndexError"
| "rgb2gray (Colour h w c p) =
     (if c < 3 then Inl IndexError
      else Inr \<lparr>shape0 = h, shape1 = w, rows = map (map gray_of) p\<rparr>)"

text \<open>\<open>A.reshape(1, n)\<close>: the rows one after the other; a \<open>ValueError\<close> when the sizes differ.\<close>

definition reshape_row :: "array2 \<Rightarrow> nat \<Rightarrow> error + array2" where
  "reshape_row A n =
     (if shape0 A * shape1 A \<noteq> n then Inl ValueError
      else Inr \<lparr>shape0 = 1, shape1 = n, rows = [concat (rows A)]\<rparr>)"

definition vectorize_img :: "(string \<Rightarrow> error + image) \<Rightarrow> nat \<Rightarrow> string \<Rightarrow> error + array2" where
  "vectorize_img imread Dim filename =
     (case imread filename of
        Inl e \<Rightarrow> Inl e
      | Inr rgb \<Rightarrow>
          (case rgb2gray rgb of
             Inl e \<Rightarrow> Inl e
           | Inr gray \<Rightarrow> reshape_row gray Dim))"

subsection \<open>Building the data matrix\<close>

text \<open>
  \<open>X[i, :] = v\<close> for a \<open>v\<close> with two dimensions: \<open>v\<close> must have one row, as long as
  the rows of \<open>X\<close> or of length 1.
\<close>

definition set_row :: "array2 \<Rightarrow> nat \<Rightarrow> array2 \<Rightarrow> error + array2" where
  "set_row X i v =
     (if shape0 X \<le> i then Inl IndexError
      else if shape0 v \<noteq> 1 then Inl ValueError
      else if shape1 v = shape1 X then Inr (X\<lparr>rows := (rows X)[i := rows v ! 0]\<rparr>)
      else if shape1 v = 1 then Inr (X\<lparr>rows := (rows X)[i := replicate (shape1 X) (rows v ! 0 ! 0)]\<rparr>)
      else Inl ValueError)"

text \<open>The loop \<open>for i in range(len(list_fn))\<close>, over the list of its indices.\<close>

fun fill_loop :: "(string \<Rightarrow> error + image) \<Rightarrow> nat \<Rightarrow> string list \<Rightarrow> nat list \<Rightarrow> array2 \<Rightarrow> error + array2" where
  "fill_loop imread Dim list_fn [] X_full = Inr X_full"
| "fill_loop imread Dim list_fn (i # rest) X_full =
     (case vectorize_img imread Dim (list_fn ! i) of
        Inl e \<Rightarrow> Inl e
      | Inr v \<Rightarrow>
          (case set_row X_full i v of
             Inl e \<Rightarrow> Inl e
           | Inr X' \<Rightarrow> fill_loop imread Dim list_fn rest X'))"

definition build_data_matrix ::
  "array2 \<Rightarrow> (string \<Rightarrow> error + image) \<Rightarrow> nat \<Rightarrow> int list \<Rightarrow> int list \<Rightarrow> error + array2 \<times> npfloat list" where
  "build_data_matrix ProjectionMatrix imread Dim img_ids view_ids =
     (let total_imgs = length img_ids * length view_ids * 2;
          X_full = zeros total_imgs Dim;
          y = replicate (total_imgs div 2) (Fin 0) @ replicate (total_imgs div 2) (Fin 1);
          list_fn_m = build_list_fn ''M-'' img_ids view_ids;
          list_fn_w = build_list_fn ''W-'' img_ids view_ids;
          list_fn = list_fn_m @ list_fn_w
      in case fill_loop imread Dim list_fn [0..<length list_fn] X_full of
           Inl e \<Rightarrow> Inl e
         | Inr X_full' \<Rightarrow>
             (case dot X_full' ProjectionMatrix of
                Inl e \<Rightarrow> Inl e
              | Inr X \<Rightarrow> Inr (X, y)))"

text \<open>
  Two local values of \<open>build_data_matrix\<close>, named so that the theorems can speak of
  them: the concatenated list of file names, and \<open>X_full\<close> as the loop leaves it.
\<close>

definition list_fn_of :: "int list \<Rightarrow> int list \<Rightarrow> string list" where
  "list_fn_of img_ids view_ids =
     build_list_fn ''M-'' img_ids view_ids @ build_list_fn ''W-'' img_ids view_ids"

definition load_full :: "(string \<Rightarrow> error + image) \<Rightarrow> nat \<Rightarrow> int list \<Rightarrow> int list \<Rightarrow> error + array2" where
  "load_full imread Dim img_ids view_ids =
     fill_loop imread Dim (list_fn_of img_ids view_ids)
       [0..<length (list_fn_of img_ids view_ids)]
       (zeros (length img_ids * length view_ids * 2) Dim)"

subsection \<open>Feature statistics and the experiment\<close>

text \<open>\<open>(X - x_mean) / x_var\<close>, for the stored statistics \<open>m\<close> and \<open>v\<close>.\<close>

definition feature_extraction :: "npfloat list \<Rightarrow> npfloat list \<Rightarrow> array2 \<Rightarrow> error + array2" where
  "feature_extraction m v X =
     (case broadcast fsub X m of
        Inl e \<Rightarrow> Inl e
      | Inr Y \<Rightarrow> broadcast fdiv Y v)"

text \<open>The values the cell has computed when it reaches the classifier.\<close>

record prepared =
  x_mean :: "npfloat list"
  x_var :: "npfloat list"
  X_train :: array2
  y_train :: "npfloat list"
  X_test :: array2
  y_test :: "npfloat list"

definition prepare ::
  "array2 \<Rightarrow> (string \<Rightarrow> error + image) \<Rightarrow> nat \<Rightarrow> int list \<Rightarrow> int list \<Rightarrow> int list \<Rightarrow> error + prepared" where
  "prepare ProjectionMatrix imread Dim tr_ids te_ids v_ids =
     (case build_data_matrix ProjectionMatrix imread Dim tr_ids v_ids of
        Inl e \<Rightarrow> Inl e
      | Inr (X_train_full, ytr) \<Rightarrow>
          (let xm = mean_axis0 X_train_full; xv = var_axis0 X_train_full
           in case feature_extraction xm xv X_train_full of
                Inl e \<Rightarrow> Inl e
              | Inr Xtr \<Rightarrow>
                  (case build_data_matrix ProjectionMatrix imread Dim te_ids v_ids of
                     Inl e \<Rightarrow> Inl e
                   | Inr (X_test_full, yte) \<Rightarrow>
                       (case feature_extraction xm xv X_test_full of
                          Inl e \<Rightarrow> Inl e
                        | Inr Xte \<Rightarrow>
                            Inr \<lparr>x_mean = xm, x_var = xv, X_train = Xtr, y_train = ytr,
                                 X_test = Xte, y_test = yte\<rparr>))))"

text \<open>
  Modelled from the spec: \<open>accuracy_score\<close> is \<open>sklearn.metrics.accuracy_score\<close>,
  which the cell imports and which is not among the sources. The specification calls
  its result ``the fraction of correct predictions against true test labels''; as the
  library documents it, that is the mean of the elementwise equality of the two label
  vectors, with a \<open>ValueError\<close> for vectors of different lengths and for targets that
  are not class labels (a float that is not an integer makes the target
  ``continuous''). The mean of no value at all is \<open>0 / 0\<close>, a NaN.
\<close>

fun is_class_label :: "npfloat \<Rightarrow> bool" where
  "is_class_label (Fin q) \<longleftrightarrow> of_int \<lfloor>q\<rfloor> = q"
| "is_class_label x \<longleftrightarrow> False"

definition accuracy_score :: "npfloat list \<Rightarrow> npfloat list \<Rightarrow> error + npfloat" where
  "accuracy_score y_true y_pred =
     (if length y_true \<noteq> length y_pred then Inl ValueError
      else if \<not> (list_all is_class_label y_true \<and> list_all is_class_label y_pred)
      then Inl ValueError
      else Inr (fmean (map2 (\<lambda>a b. if a = b then Fin 1 else Fin 0) y_true y_pred)))"

text \<open>
  The conversion \<open>%.2f\<close>: two digits after the point, the nearest value, a tie going to
  the even digit; \<open>nan\<close> and \<open>inf\<close> for the special values.
\<close>

definition round_half_even :: "rat \<Rightarrow> int" where
  "round_half_even q =
     (let f = \<lfloor>q\<rfloor>; r = q - of_int f
      in if r < 1 / 2 then f else if 1 / 2 < r then f + 1 else if even f then f else f + 1)"

definition format_2f :: "npfloat \<Rightarrow> string" where
  "format_2f x =
     (case x of
        NaN \<Rightarrow> ''nan''
      | PInf \<Rightarrow> ''inf''
      | NInf \<Rightarrow> ''-inf''
      | Fin q \<Rightarrow>
          (let h = nat (round_half_even (\<bar>q\<bar> * 100))
           in (if q < 0 then ''-'' else []) @ digits (h div 100) @ ''.''
              @ [digit_char (h mod 100 div 10), digit_char (h mod 10)]))"

text \<open>The text of \<open>"Accuracy: %.2f %%" %(100*accuracy_score(y_test, y_pred))\<close>.\<close>

definition accuracy_line :: "npfloat list \<Rightarrow> npfloat list \<Rightarrow> error + string" where
  "accuracy_line y_true y_pred =
     (case accuracy_score y_true y_pred of
        Inl e \<Rightarrow> Inl e
      | Inr a \<Rightarrow> Inr (''Accuracy: '' @ format_2f (fmul (Fin 100) a) @ '' %''))"

text \<open>
  The cell from \<open>build_data_matrix(train_ids, view_ids)\<close> to the last \<open>print\<close>. The
  classifier (\<open>logreg.fit\<close> on the training pair, then \<open>logreg.predict\<close> on the test
  matrix) is the parameter \<open>clf\<close>. The result is the line printed last.
\<close>

definition run_experiment ::
  "array2 \<Rightarrow> (string \<Rightarrow> error + image) \<Rightarrow> (array2 \<Rightarrow> npfloat list \<Rightarrow> array2 \<Rightarrow> error + npfloat list)
   \<Rightarrow> nat \<Rightarrow> int list \<Rightarrow> int list \<Rightarrow> int list \<Rightarrow> error + string" where
  "run_experiment ProjectionMatrix imread clf Dim tr_ids te_ids v_ids =
     (case prepare ProjectionMatrix imread Dim tr_ids te_ids v_ids of
        Inl e \<Rightarrow> Inl e
      | Inr s \<Rightarrow>
          (case clf (X_train s) (y_train s) (X_test s) of
             Inl e \<Rightarrow> Inl e
           | Inr y_pred \<Rightarrow> accuracy_line (y_test s) y_pred))"

text \<open>
  The same cell from \<open>X_train = feature_extraction(X_train_full)\<close> on, with the
  training matrix and the stored \<open>x_mean\<close> and \<open>x_var\<close> as they stand at that line:
  whatever numpy has stored there, rounded or not.
\<close>

definition rest_of_cell ::
  "array2 \<Rightarrow> (string \<Rightarrow> error + image) \<Rightarrow> (array2 \<Rightarrow> npfloat list \<Rightarrow> array2 \<Rightarrow> error + npfloat list)
   \<Rightarrow> nat \<Rightarrow> int list \<Rightarrow> int list \<Rightarrow> array2 \<Rightarrow> npfloat list \<Rightarrow> npfloat list \<Rightarrow> npfloat list
   \<Rightarrow> error + string" where
  "rest_of_cell ProjectionMatrix imread clf Dim te_ids v_ids X_train_full ytr xm xv =
     (case feature_extraction xm xv X_train_full of
        Inl e \<Rightarrow> Inl e
      | Inr Xtr \<Rightarrow>
          (case build_data_matrix ProjectionMatrix imread Dim te_ids v_ids of
             Inl e \<Rightarrow> Inl e
           | Inr (X_test_full, yte) \<Rightarrow>
               (case feature_extraction xm xv X_test_full of
                  Inl e \<Rightarrow> Inl e
                | Inr Xte \<Rightarrow>
                    (case clf Xtr ytr Xte of
                       Inl e \<Rightarrow> Inl e
                     | Inr y_pred \<Rightarrow> accuracy_line yte y_pred))))"

text \<open>
  Modelled from the spec: the classifier the harness trains is
  \<open>sklearn.linear_model.LogisticRegression\<close> (in the second cell \<open>sklearn.svm.SVC\<close>),
  which the cell imports and which is not among the sources. As the library documents
  it, \<open>fit\<close> first validates the training matrix and raises a \<open>ValueError\<close> when it
  contains a NaN or an infinity. What follows the validation (the rest of \<open>fit\<close>, then
  \<open>predict\<close>) stays the parameter \<open>est\<close>.
\<close>

definition all_finite :: "array2 \<Rightarrow> bool" where
  "all_finite A \<longleftrightarrow> list_all (list_all is_finite) (rows A)"

definition fit_predict ::
  "(array2 \<Rightarrow> npfloat list \<Rightarrow> array2 \<Rightarrow> error + npfloat list)
   \<Rightarrow> array2 \<Rightarrow> npfloat list \<Rightarrow> array2 \<Rightarrow> error + npfloat list" where
  "fit_predict est X y X' = (if all_finite X then est X y X' else Inl ValueError)"

text \<open>The values of the notebook's globals.\<close>

definition train_ids :: "int list" where
  "train_ids = [1..25]"

definition test_ids :: "int list" where
  "test_ids = [26..49]"

definition view_ids :: "int list" where
  "view_ids = [1..7] @ [14..20]"

definition D :: nat where
  "D = 165 * 120"

definition d :: nat where
  "d = 1000"

definition notebook ::
  "array2 \<Rightarrow> (string \<Rightarrow> error + image) \<Rightarrow> (array2 \<Rightarrow> npfloat list \<Rightarrow> array2 \<Rightarrow> error + npfloat list)
   \<Rightarrow> error + string" where
  "notebook ProjectionMatrix imread clf =
     run_experiment ProjectionMatrix imread clf D train_ids test_ids view_ids"

subsection \<open>The words of the specification\<close>

text \<open>
  The matrix product as the specification words it, to be compared with what
  \<open>build_data_matrix\<close> computes: entry \<open>(i, j)\<close> of the product of \<open>A\<close> and \<open>B\<close> is
  the sum over \<open>k\<close> of \<open>A[i, k] * B[k, j]\<close>.
\<close>

definition matrix_product :: "array2 \<Rightarrow> array2 \<Rightarrow> array2 \<Rightarrow> bool" where
  "matrix_product A B C \<longleftrightarrow>
     shape0 C = shape0 A \<and> shape1 C = shape1 B \<and> wf_array2 C \<and>
     (\<forall>i < shape0 A. \<forall>j < shape1 B.
        rows C ! i ! j = fsum (map (\<lambda>k. fmul (rows A ! i ! k) (rows B ! k ! j)) [0..<shape0 B]))"

text \<open>
  The accuracy in the words of the specification: the number of correct predictions, and
  a reported value in \<open>[0, 100]\<close>.
\<close>

definition correct :: "npfloat list \<Rightarrow> npfloat list \<Rightarrow> nat" where
  "correct y_true y_pred = length (filter (\<lambda>(a, b). a = b) (zip y_true y_pred))"

fun is_percentage :: "npfloat \<Rightarrow> bool" where
  "is_percentage (Fin q) \<longleftrightarrow> 0 \<le> q \<and> q \<le> 100"
| "is_percentage x \<longleftrightarrow> False"

subsection \<open>A small run\<close>

text \<open>
  A file system with images of one row and two pixels: the images of the subjects whose
  id ends in 1 and the others, men and women apart. The second pixel is the same in both
  images of subject 1. With it a projection matrix of shape \<open>(2, 2)\<close>.
\<close>

definition ex_imread :: "string \<Rightarrow> error + image" where
  "ex_imread filename =
     (if filename ! 18 = CHR ''1''
      then (if filename ! 14 = CHR ''M'' then Inr (Colour 1 2 3 [[[10, 20, 30], [50, 50, 50]]])
            else Inr (Colour 1 2 3 [[[0, 0, 0], [50, 50, 50]]]))
      else (if filename ! 14 = CHR ''M'' then Inr (Colour 1 2 3 [[[1, 1, 1], [2, 2, 2]]])
            else Inr (Colour 1 2 3 [[[255, 255, 255], [50, 50, 50]]])))"

definition ex_P :: array2 where
  "ex_P = \<lparr>shape0 = 2, shape1 = 2, rows = [[Fin 1, Fin 0], [Fin 1, Fin 2]]\<rparr>"

definition ex_X_train_full :: array2 where
  "ex_X_train_full = \<lparr>shape0 = 2, shape1 = 2, rows = [[Fin (1363 / 20), Fin 100], [Fin 50, Fin 100]]\<rparr>"

text \<open>What is left of a classifier that answers 0 for every test row.\<close>

definition always_zero :: "array2 \<Rightarrow> npfloat list \<Rightarrow> array2 \<Rightarrow> error + npfloat list" where
  "always_zero X y X' = Inr (replicate (shape0 X') (Fin 0))"

text \<open>A training matrix with one column.\<close>

definition ex_X :: array2 where
  "ex_X = \<lparr>shape0 = 2, shape1 = 1, rows = [[Fin 1], [Fin 3]]\<rparr>"

section \<open>Properties\<close>

subsection \<open>Properties of the enumerator\<close>

lemma view_loop_eq:
  "view_loop pre im_id vs acc = acc @ map (fn_of pre im_id) vs"
  by (induction vs arbitrary: acc) simp_all

lemma img_loop_eq:
  "img_loop pre ims vs acc = acc @ concat (map (\<lambda>im_id. map (fn_of pre im_id) vs) ims)"
  by (induction ims arbitrary: acc) (simp_all add: view_loop_eq)

lemma build_list_fn_concat:
  "build_list_fn pre ims vs = concat (map (\<lambda>im_id. map (fn_of pre im_id) vs) ims)"
  by (simp add: build_list_fn_def img_loop_eq)

lemma length_concat_const:
  "(\<And>x. x \<in> set xs \<Longrightarrow> length (f x) = m) \<Longrightarrow> length (concat (map f xs)) = length xs * m"
  by (induction xs) simp_all

lemma nth_concat_const:
  assumes "\<And>x. x \<in> set xs \<Longrightarrow> length (f x) = m" and "i < length xs" and "j < m"
  shows "concat (map f xs) ! (i * m + j) = f (xs ! i) ! j"
  using assms
proof (induction xs arbitrary: i)
  case Nil
  then show ?case by simp
next
  case (Cons x xs)
  show ?case
  proof (cases i)
    case 0
    with Cons.prems show ?thesis by (simp add: nth_append)
  next
    case (Suc k)
    have "concat (map f xs) ! (k * m + j) = f (xs ! k) ! j"
      using Cons.prems Suc by (intro Cons.IH) simp_all
    with Cons.prems Suc show ?thesis by (simp add: nth_append)
  qed
qed

lemma length_build_list_fn:
  "length (build_list_fn pre ims vs) = length ims * length vs"
  by (simp add: build_list_fn_concat length_concat_const)

lemma nth_build_list_fn:
  "i < length ims \<Longrightarrow> j < length vs \<Longrightarrow>
   build_list_fn pre ims vs ! (i * length vs + j) = fn_of pre (ims ! i) (vs ! j)"
  by (simp add: build_list_fn_concat nth_concat_const [where m = "length vs"])

subsection \<open>What \<open>str\<close> and \<open>zfill\<close> produce\<close>

lemma length_zfill: "length (zfill s w) = max w (length s)"
  by (auto simp: zfill_def split: list.splits)

lemma digits_lt10: "n < 10 \<Longrightarrow> digits n = [digit_char n]"
  by (simp add: digits.simps)

lemma digits_lt100: "10 \<le> n \<Longrightarrow> n < 100 \<Longrightarrow> digits n = [digit_char (n div 10), digit_char (n mod 10)]"
  by (subst digits.simps) (simp add: digits_lt10)

lemma digits_lt1000: "100 \<le> n \<Longrightarrow> n < 1000 \<Longrightarrow>
  digits n = [digit_char (n div 100), digit_char (n div 10 mod 10), digit_char (n mod 10)]"
  by (subst digits.simps) (simp add: digits_lt100 div_mult2_eq [symmetric])

lemma digit_char_0: "digit_char 0 = CHR ''0''"
  by (simp add: digit_char_def)

lemma digit_char_not_sign: "k < 10 \<Longrightarrow> digit_char k \<noteq> CHR ''+'' \<and> digit_char k \<noteq> CHR ''-''"
  by (auto simp: digit_char_def numeral_eq_Suc less_Suc_eq)

lemma zfill_str_3:
  assumes "0 \<le> n" "n < 1000"
  shows "zfill (str n) 3 =
    [digit_char (nat n div 100), digit_char (nat n div 10 mod 10), digit_char (nat n mod 10)]"
proof -
  let ?k = "nat n"
  have k: "?k < 1000" using assms by simp
  have s: "str n = digits ?k" using assms by (simp add: str_def)
  consider "?k < 10" | "10 \<le> ?k" "?k < 100" | "100 \<le> ?k" using k by linarith
  then show ?thesis
  proof cases
    case 1
    then show ?thesis
      using digit_char_not_sign [of ?k]
      by (simp add: s digits_lt10 zfill_def digit_char_0 numeral_3_eq_3)
  next
    case 2
    then have "digit_char (?k div 10) \<noteq> CHR ''+'' \<and> digit_char (?k div 10) \<noteq> CHR ''-''"
      by (intro digit_char_not_sign) simp
    with 2 show ?thesis
      by (simp add: s digits_lt100 zfill_def digit_char_0)
  next
    case 3
    with k show ?thesis
      by (simp add: s digits_lt1000 zfill_def)
  qed
qed

lemma zfill_str_2:
  assumes "0 \<le> n" "n < 100"
  shows "zfill (str n) 2 = [digit_char (nat n div 10), digit_char (nat n mod 10)]"
proof -
  let ?k = "nat n"
  have k: "?k < 100" using assms by simp
  have s: "str n = digits ?k" using assms by (simp add: str_def)
  show ?thesis
  proof (cases "?k < 10")
    case True
    then show ?thesis
      using digit_char_not_sign [of ?k]
      by (simp add: s digits_lt10 zfill_def digit_char_0 numeral_2_eq_2)
  next
    case False
    with k show ?thesis
      by (simp add: s digits_lt100 zfill_def)
  qed
qed

text \<open>
  Claim C5. For every prefix and every two sequences of ids (none is rejected),
  \<open>build_list_fn\<close> returns a list of \<open>|img_ids| * |view_ids|\<close> names, subject by
  subject and, for each subject, view by view; the name at position
  \<open>i * |view_ids| + j\<close> is the path, the prefix, the \<open>i\<close>-th subject id filled with
  zeros to three characters, a dash, the \<open>j\<close>-th view id filled with zeros to two
  characters, and \<open>.bmp\<close>. A subject id from 0 to 999 gives exactly its three decimal
  digits, a view id from 0 to 99 its two.
\<close>

theorem build_list_fn_spec:
  "length (build_list_fn pre img_ids vw_ids) = length img_ids * length vw_ids \<and>
   (\<forall>i j. i < length img_ids \<longrightarrow> j < length vw_ids \<longrightarrow>
      build_list_fn pre img_ids vw_ids ! (i * length vw_ids + j) =
        path @ pre @ zfill (str (img_ids ! i)) 3 @ ''-'' @ zfill (str (vw_ids ! j)) 2 @ ''.bmp'' \<and>
      (0 \<le> img_ids ! i \<and> img_ids ! i < 1000 \<longrightarrow>
         zfill (str (img_ids ! i)) 3 =
           [digit_char (nat (img_ids ! i) div 100), digit_char (nat (img_ids ! i) div 10 mod 10),
            digit_char (nat (img_ids ! i) mod 10)]) \<and>
      (0 \<le> vw_ids ! j \<and> vw_ids ! j < 100 \<longrightarrow>
         zfill (str (vw_ids ! j)) 2 =
           [digit_char (nat (vw_ids ! j) div 10), digit_char (nat (vw_ids ! j) mod 10)]))"
  using zfill_str_3 zfill_str_2
  by (simp add: length_build_list_fn nth_build_list_fn fn_of_def)

theorem build_list_fn_spec_witness:
  "length (build_list_fn ''M-'' [1, 26] [7, 14]) = 4 \<and>
   build_list_fn ''M-'' [1, 26] [7, 14] ! 3 = ''../../data/AR/M-026-14.bmp''"
proof -
  note spec = build_list_fn_spec [of "''M-''" "[1, 26]" "[7, 14]"]
  have "length (build_list_fn ''M-'' [1, 26] [7, 14]) = 4"
    using spec by simp
  moreover have "build_list_fn ''M-'' [1, 26] [7, 14] ! Suc (Suc (Suc 0)) = ''../../data/AR/M-026-14.bmp''"
    using spec [THEN conjunct2, rule_format, of 1 1] by (simp add: path_def digit_char_def)
  then have "build_list_fn ''M-'' [1, 26] [7, 14] ! 3 = ''../../data/AR/M-026-14.bmp''"
    by (simp only: numeral_3_eq_3)
  ultimately show ?thesis by simp
qed

subsection \<open>Arithmetic on the special values\<close>

lemma fdiv_zero_not_finite: "\<not> is_finite (fdiv a (Fin 0))"
  by (cases a) simp_all

lemma fsub_zero: "fsub a (Fin 0) = a"
  by (cases a) (simp_all add: fsub_def)

lemma fdiv_one: "fdiv a (Fin 1) = a"
  by (cases a) simp_all

subsection \<open>Broadcasting and the transform\<close>

lemma broadcast_same:
  "shape1 A = length v \<Longrightarrow> broadcast f A v = Inr (A\<lparr>rows := map (\<lambda>r. map2 f r v) (rows A)\<rparr>)"
  by (simp add: broadcast_def)

lemma feature_extraction_same:
  assumes "shape1 X = length m" and "length v = length m"
  shows "feature_extraction m v X =
    Inr (X\<lparr>rows := map (\<lambda>r. map2 fdiv (map2 fsub r m) v) (rows X)\<rparr>)"
  using assms by (simp add: feature_extraction_def broadcast_same comp_def)

lemma nth_transformed:
  assumes "length r = length m" and "length v = length m" and "j < length m"
  shows "map2 fdiv (map2 fsub r m) v ! j = fdiv (fsub (r ! j) (m ! j)) (v ! j)"
  using assms by simp

lemma feature_extraction_elementwise:
  assumes wf: "wf_array2 X" and m: "shape1 X = length m" and v: "length v = length m"
  shows "\<exists>Y. feature_extraction m v X = Inr Y \<and> wf_array2 Y \<and>
           shape0 Y = shape0 X \<and> shape1 Y = shape1 X \<and>
           (\<forall>i < shape0 X. \<forall>j < shape1 X.
              rows Y ! i ! j = fdiv (fsub (rows X ! i ! j) (m ! j)) (v ! j))"
proof -
  let ?Y = "X\<lparr>rows := map (\<lambda>r. map2 fdiv (map2 fsub r m) v) (rows X)\<rparr>"
  have len: "length (rows X) = shape0 X" and row: "\<And>r. r \<in> set (rows X) \<Longrightarrow> length r = length m"
    using wf m by (simp_all add: wf_array2_def)
  have "feature_extraction m v X = Inr ?Y"
    using m v by (rule feature_extraction_same)
  moreover have "wf_array2 ?Y"
    using len row v m by (auto simp: wf_array2_def)
  moreover have "rows ?Y ! i ! j = fdiv (fsub (rows X ! i ! j) (m ! j)) (v ! j)"
    if "i < shape0 X" and "j < shape1 X" for i j
  proof -
    have "rows X ! i \<in> set (rows X)" using that len by simp
    then have "length (rows X ! i) = length m" by (rule row)
    then show ?thesis using that len m v by (simp add: nth_transformed)
  qed
  ultimately show ?thesis by auto
qed

subsection \<open>The vectorizer\<close>

lemma rgb2gray_Inr:
  "rgb2gray im = Inr G \<Longrightarrow>
   \<exists>h w c p. im = Colour h w c p \<and> 3 \<le> c \<and> G = \<lparr>shape0 = h, shape1 = w, rows = map (map gray_of) p\<rparr>"
  by (cases im) (auto split: if_splits)

lemma reshape_row_Inr:
  "reshape_row A n = Inr v \<Longrightarrow> v = \<lparr>shape0 = 1, shape1 = n, rows = [concat (rows A)]\<rparr>"
  by (auto simp: reshape_row_def split: if_splits)

lemma vectorize_img_Inr:
  assumes "vectorize_img imread Dim filename = Inr v"
  shows "\<exists>h w c p. imread filename = Inr (Colour h w c p) \<and> 3 \<le> c \<and> h * w = Dim \<and>
           v = \<lparr>shape0 = 1, shape1 = Dim, rows = [concat (map (map gray_of) p)]\<rparr>"
proof -
  from assms obtain im G where im: "imread filename = Inr im"
    and G: "rgb2gray im = Inr G" and v: "reshape_row G Dim = Inr v"
    by (auto simp: vectorize_img_def split: sum.splits)
  from G obtain h w c p where c: "im = Colour h w c p" "3 \<le> c"
    and G': "G = \<lparr>shape0 = h, shape1 = w, rows = map (map gray_of) p\<rparr>"
    using rgb2gray_Inr by blast
  from v have "shape0 G * shape1 G = Dim"
    by (auto simp: reshape_row_def split: if_splits)
  with im c G' reshape_row_Inr [OF v] show ?thesis by auto
qed

lemma vectorize_img_shape:
  "vectorize_img imread Dim filename = Inr v \<Longrightarrow> shape0 v = 1 \<and> shape1 v = Dim \<and> length (rows v) = 1"
  by (drule vectorize_img_Inr) auto

lemma concat_nth_rect:
  assumes "\<And>r. r \<in> set xss \<Longrightarrow> length r = w" and "i < length xss" and "k < w"
  shows "concat xss ! (i * w + k) = xss ! i ! k"
  using nth_concat_const [of xss "\<lambda>r. r" w i k] assms by simp

lemma length_concat_rect:
  assumes "\<And>r. r \<in> set xss \<Longrightarrow> length r = w"
  shows "length (concat xss) = length xss * w"
  using length_concat_const [of xss "\<lambda>r. r" w] assms by simp

lemma gray_of_value:
  "gray_of q = Fin ((299 * of_nat (unat (q ! 0)) + 587 * of_nat (unat (q ! 1)) +
                    114 * of_nat (unat (q ! 2))) / 1000)"
  by (simp add: gray_of_def of_u8_def field_simps)

lemma vectorize_img_row_length:
  assumes "vectorize_img imread Dim filename = Inr v" and "wf_imread imread"
  shows "length (rows v ! 0) = Dim"
proof -
  from vectorize_img_Inr [OF assms(1)] obtain h w c p where
    im: "imread filename = Inr (Colour h w c p)" and hw: "h * w = Dim" and
    v: "v = \<lparr>shape0 = 1, shape1 = Dim, rows = [concat (map (map gray_of) p)]\<rparr>"
    by blast
  from im assms(2) have "wf_image (Colour h w c p)" unfolding wf_imread_def by blast
  then have "length (concat (map (map gray_of) p)) = length (map (map gray_of) p) * w"
    by (intro length_concat_rect) auto
  moreover have "length p = h" using \<open>wf_image (Colour h w c p)\<close> by simp
  ultimately show ?thesis using v hw by simp
qed

text \<open>
  Claim C8. For an array of pixels with three channels (or more: only the first three are
  read), the grayscale conversion returns, pixel by pixel, the weighted sum
  \<open>0.299 R + 0.587 G + 0.114 B\<close>; the loader then lays the rows of the grid one after
  the other in a single row of length \<open>D\<close>, the pixel \<open>(r, k)\<close> at position
  \<open>r * width + k\<close>.
\<close>

theorem vectorize_img_spec:
  assumes im: "imread filename = Inr (Colour h w c p)" and wf: "wf_image (Colour h w c p)"
    and c: "3 \<le> c" and hw: "h * w = Dim"
  shows "\<exists>G v. rgb2gray (Colour h w c p) = Inr G \<and> shape0 G = h \<and> shape1 G = w \<and>
           (\<forall>r < h. \<forall>k < w.
              rows G ! r ! k =
                fadd (fadd (fmul (of_u8 (p ! r ! k ! 0)) (Fin (299 / 1000)))
                           (fmul (of_u8 (p ! r ! k ! 1)) (Fin (587 / 1000))))
                     (fmul (of_u8 (p ! r ! k ! 2)) (Fin (114 / 1000)))) \<and>
           vectorize_img imread Dim filename = Inr v \<and>
           shape0 v = 1 \<and> shape1 v = Dim \<and> rows v = [concat (rows G)] \<and>
           length (concat (rows G)) = Dim \<and>
           (\<forall>r < h. \<forall>k < w. rows v ! 0 ! (r * w + k) = rows G ! r ! k)"
proof -
  let ?G = "\<lparr>shape0 = h, shape1 = w, rows = map (map gray_of) p\<rparr>"
  let ?v = "\<lparr>shape0 = 1, shape1 = Dim, rows = [concat (rows ?G)]\<rparr>"
  have lp: "length p = h" and lr: "\<And>r. r \<in> set p \<Longrightarrow> length r = w"
    using wf by simp_all
  have G: "rgb2gray (Colour h w c p) = Inr ?G" using c by simp
  have rect: "\<And>r. r \<in> set (rows ?G) \<Longrightarrow> length r = w" using lr by auto
  have entry: "rows ?G ! r ! k = gray_of (p ! r ! k)" if "r < h" "k < w" for r k
  proof -
    have "p ! r \<in> set p" using that lp by simp
    then have "length (p ! r) = w" by (rule lr)
    then show ?thesis using that lp by simp
  qed
  have v: "vectorize_img imread Dim filename = Inr ?v"
    using im G hw by (simp add: vectorize_img_def reshape_row_def)
  have len: "length (concat (rows ?G)) = Dim"
    using length_concat_rect [where xss = "rows ?G" and w = w] rect lp hw by simp
  have flat: "rows ?v ! 0 ! (r * w + k) = rows ?G ! r ! k" if "r < h" "k < w" for r k
    using concat_nth_rect [where xss = "rows ?G" and w = w and i = r and k = k] rect that lp by simp
  have "\<forall>r < h. \<forall>k < w.
      rows ?G ! r ! k =
        fadd (fadd (fmul (of_u8 (p ! r ! k ! 0)) (Fin (299 / 1000)))
                   (fmul (of_u8 (p ! r ! k ! 1)) (Fin (587 / 1000))))
             (fmul (of_u8 (p ! r ! k ! 2)) (Fin (114 / 1000)))"
    using entry by (simp add: gray_of_def)
  moreover have "\<forall>r < h. \<forall>k < w. rows ?v ! 0 ! (r * w + k) = rows ?G ! r ! k"
    using flat by blast
  ultimately show ?thesis
    using G v len by (intro exI [of _ ?G] exI [of _ ?v]) simp
qed

theorem vectorize_img_spec_witness:
  "\<exists>G v. rgb2gray (Colour 1 2 3 [[[10, 20, 30], [50, 50, 50]]]) = Inr G \<and>
     rows G ! 0 ! 0 = Fin (363 / 20) \<and> rows G ! 0 ! 1 = Fin 50 \<and>
     vectorize_img ex_imread 2 ''../../data/AR/M-001-01.bmp'' = Inr v \<and>
     shape0 v = 1 \<and> shape1 v = 2 \<and> rows v = [[Fin (363 / 20), Fin 50]]"
proof -
  have im: "ex_imread ''../../data/AR/M-001-01.bmp'' = Inr (Colour 1 2 3 [[[10, 20, 30], [50, 50, 50]]])"
    by code_simp
  have wf: "wf_image (Colour 1 2 3 [[[10, 20, 30], [50, 50, 50]]])" by simp
  have g: "gray_of [10, 20, 30] = Fin (363 / 20)" "gray_of [50, 50, 50] = Fin 50"
    by code_simp+
  from vectorize_img_spec
    [of ex_imread "''../../data/AR/M-001-01.bmp''" 1 2 3 "[[[10, 20, 30], [50, 50, 50]]]" 2, OF im wf]
  show ?thesis by (simp add: g) blast
qed

subsection \<open>The loop over the file names\<close>

lemma set_row_Inr:
  assumes "set_row X i v = Inr X'" and "shape0 v = 1" and "shape1 v = shape1 X"
  shows "X' = X\<lparr>rows := (rows X)[i := rows v ! 0]\<rparr> \<and> i < shape0 X"
  using assms by (auto simp: set_row_def split: if_splits)

lemma fill_loop_Inr:
  assumes "fill_loop imread Dim list_fn idx X = Inr X'" and "shape1 X = Dim"
  shows "shape0 X' = shape0 X \<and> shape1 X' = Dim \<and> length (rows X') = length (rows X) \<and>
         (\<forall>i. i \<notin> set idx \<longrightarrow> rows X' ! i = rows X ! i) \<and>
         (distinct idx \<longrightarrow> length (rows X) = shape0 X \<longrightarrow>
            (\<forall>i \<in> set idx. \<exists>v. vectorize_img imread Dim (list_fn ! i) = Inr v \<and>
                                 rows X' ! i = rows v ! 0))"
  using assms
proof (induction idx arbitrary: X)
  case Nil
  then show ?case by simp
next
  case (Cons i idx)
  from Cons.prems(1) obtain v X1 where
    v: "vectorize_img imread Dim (list_fn ! i) = Inr v" and
    X1: "set_row X i v = Inr X1" and
    rest: "fill_loop imread Dim list_fn idx X1 = Inr X'"
    by (auto split: sum.splits)
  from vectorize_img_shape [OF v] Cons.prems(2)
  have sv: "shape0 v = 1" "shape1 v = shape1 X" by simp_all
  from set_row_Inr [OF X1 sv]
  have X1_eq: "X1 = X\<lparr>rows := (rows X)[i := rows v ! 0]\<rparr>" and i: "i < shape0 X" by simp_all
  have s1: "shape1 X1 = Dim" using X1_eq Cons.prems(2) by simp
  note IH = Cons.IH [OF rest s1]
  have a: "shape0 X' = shape0 X" "shape1 X' = Dim" "length (rows X') = length (rows X)"
    using IH X1_eq by simp_all
  have b: "rows X' ! k = rows X ! k" if "k \<notin> set (i # idx)" for k
    using IH that X1_eq by simp
  have c: "\<exists>u. vectorize_img imread Dim (list_fn ! k) = Inr u \<and> rows X' ! k = rows u ! 0"
    if d: "distinct (i # idx)" and l: "length (rows X) = shape0 X" and k: "k \<in> set (i # idx)" for k
  proof (cases "k = i")
    case True
    have "i \<notin> set idx" using d by simp
    then have "rows X' ! i = rows X1 ! i" using IH by simp
    also have "\<dots> = rows v ! 0" using X1_eq i l by simp
    finally show ?thesis using v True by blast
  next
    case False
    then have "k \<in> set idx" using k by simp
    moreover have "distinct idx" using d by simp
    moreover have "length (rows X1) = shape0 X1" using X1_eq l by simp
    ultimately show ?thesis using IH by blast
  qed
  from a b c show ?case by blast
qed

lemma wf_zeros: "wf_array2 (zeros n m)"
  by (simp add: wf_array2_def zeros_def)

lemma length_list_fn_of:
  "length (list_fn_of img_ids vw_ids) = 2 * (length img_ids * length vw_ids)"
  by (simp add: list_fn_of_def length_build_list_fn)

lemma nth_list_fn_of:
  assumes "i < 2 * (length img_ids * length vw_ids)"
  shows "list_fn_of img_ids vw_ids ! i =
    (if i < length img_ids * length vw_ids then build_list_fn ''M-'' img_ids vw_ids ! i
     else build_list_fn ''W-'' img_ids vw_ids ! (i - length img_ids * length vw_ids))"
  by (simp add: list_fn_of_def nth_append length_build_list_fn)

lemma load_full_Inr:
  assumes "load_full imread Dim img_ids vw_ids = Inr X_full"
  shows "shape0 X_full = 2 * (length img_ids * length vw_ids) \<and> shape1 X_full = Dim \<and>
         length (rows X_full) = 2 * (length img_ids * length vw_ids) \<and>
         (\<forall>i < 2 * (length img_ids * length vw_ids).
            \<exists>v. vectorize_img imread Dim (list_fn_of img_ids vw_ids ! i) = Inr v \<and>
                rows X_full ! i = rows v ! 0)"
proof -
  let ?n = "2 * (length img_ids * length vw_ids)"
  let ?fns = "list_fn_of img_ids vw_ids"
  have run: "fill_loop imread Dim ?fns [0..<?n] (zeros ?n Dim) = Inr X_full"
    using assms by (simp add: load_full_def length_list_fn_of mult.commute mult.left_commute)
  have z: "shape1 (zeros ?n Dim) = Dim" "shape0 (zeros ?n Dim) = ?n" "length (rows (zeros ?n Dim)) = ?n"
    by (simp_all add: zeros_def)
  from fill_loop_Inr [OF run z(1)] z show ?thesis by simp
qed

lemma wf_load_full:
  assumes "load_full imread Dim img_ids vw_ids = Inr X_full" and "wf_imread imread"
  shows "wf_array2 X_full"
proof -
  note L = load_full_Inr [OF assms(1)]
  have "length r = shape1 X_full" if "r \<in> set (rows X_full)" for r
  proof -
    from that obtain i where i: "i < length (rows X_full)" and r: "r = rows X_full ! i"
      by (auto simp: in_set_conv_nth)
    with L obtain v where "vectorize_img imread Dim (list_fn_of img_ids vw_ids ! i) = Inr v"
      and "rows X_full ! i = rows v ! 0" by auto
    with vectorize_img_row_length [OF _ assms(2)] r L show ?thesis by simp
  qed
  with L show ?thesis by (simp add: wf_array2_def)
qed

subsection \<open>The matrix product\<close>

lemma dot_Inr:
  assumes "dot A B = Inr C"
  shows "shape1 A = shape0 B \<and> shape0 C = shape0 A \<and> shape1 C = shape1 B \<and>
         rows C = map (\<lambda>r. vec_mat r B) (rows A)"
  using assms by (auto simp: dot_def split: if_splits)

lemma dot_returns: "shape1 A = shape0 B \<Longrightarrow> \<exists>C. dot A B = Inr C"
  by (simp add: dot_def)

lemma length_vec_mat: "length (vec_mat r B) = shape1 B"
  by (simp add: vec_mat_def)

lemma wf_dot:
  assumes "dot A B = Inr C" and "length (rows A) = shape0 A"
  shows "wf_array2 C"
  using dot_Inr [OF assms(1)] assms(2) by (auto simp: wf_array2_def length_vec_mat)

lemma map2_nth_eq:
  "length xs = length ys \<Longrightarrow> map2 f xs ys = map (\<lambda>k. f (xs ! k) (ys ! k)) [0..<length xs]"
  by (rule nth_equalityI) simp_all

lemma inner_column:
  assumes "length r = shape0 B" and "length (rows B) = shape0 B"
  shows "inner r (column B j) = fsum (map (\<lambda>k. fmul (r ! k) (rows B ! k ! j)) [0..<shape0 B])"
proof -
  have "map2 fmul r (column B j) = map (\<lambda>k. fmul (r ! k) (column B j ! k)) [0..<length r]"
    using assms by (intro map2_nth_eq) (simp add: column_def)
  also have "\<dots> = map (\<lambda>k. fmul (r ! k) (rows B ! k ! j)) [0..<shape0 B]"
    using assms by (simp add: column_def)
  finally show ?thesis by (simp add: inner_def)
qed

lemma dot_entry:
  assumes C: "dot A B = Inr C" and A: "wf_array2 A" and B: "length (rows B) = shape0 B"
    and i: "i < shape0 A" and j: "j < shape1 B"
  shows "rows C ! i ! j = fsum (map (\<lambda>k. fmul (rows A ! i ! k) (rows B ! k ! j)) [0..<shape0 B])"
proof -
  note d = dot_Inr [OF C]
  have li: "i < length (rows A)" using A i by (simp add: wf_array2_def)
  then have "rows A ! i \<in> set (rows A)" by simp
  then have "length (rows A ! i) = shape0 B" using A d by (simp add: wf_array2_def)
  then have "inner (rows A ! i) (column B j) =
      fsum (map (\<lambda>k. fmul (rows A ! i ! k) (rows B ! k ! j)) [0..<shape0 B])"
    using B by (rule inner_column)
  moreover have "rows C ! i ! j = inner (rows A ! i) (column B j)"
    using d li j by (simp add: vec_mat_def)
  ultimately show ?thesis by simp
qed

lemma dot_matrix_product:
  assumes "dot A B = Inr C" and "wf_array2 A" and "length (rows B) = shape0 B"
  shows "matrix_product A B C"
  unfolding matrix_product_def
proof (intro conjI allI impI)
  show "shape0 C = shape0 A" "shape1 C = shape1 B"
    using dot_Inr [OF assms(1)] by simp_all
  have "length (rows A) = shape0 A" using assms(2) by (simp add: wf_array2_def)
  then show "wf_array2 C" by (rule wf_dot [OF assms(1)])
  show "rows C ! i ! j = fsum (map (\<lambda>k. fmul (rows A ! i ! k) (rows B ! k ! j)) [0..<shape0 B])"
    if "i < shape0 A" and "j < shape1 B" for i j
    using assms that by (rule dot_entry)
qed

subsection \<open>The data matrix\<close>

lemma build_data_matrix_Inr:
  assumes "build_data_matrix P imread Dim img_ids vw_ids = Inr (X, y)"
  shows "\<exists>X_full. load_full imread Dim img_ids vw_ids = Inr X_full \<and> dot X_full P = Inr X \<and>
           y = replicate (length img_ids * length vw_ids) (Fin 0) @
               replicate (length img_ids * length vw_ids) (Fin 1)"
  using assms
  by (auto simp: build_data_matrix_def load_full_def list_fn_of_def Let_def split: sum.splits)

lemma build_data_matrix_shape:
  assumes "build_data_matrix P imread Dim img_ids vw_ids = Inr (X, y)"
  shows "wf_array2 X \<and> shape0 X = 2 * (length img_ids * length vw_ids) \<and> shape1 X = shape1 P \<and>
         shape0 P = Dim"
proof -
  from build_data_matrix_Inr [OF assms] obtain X_full where
    l: "load_full imread Dim img_ids vw_ids = Inr X_full" and d: "dot X_full P = Inr X"
    by blast
  note L = load_full_Inr [OF l] and D = dot_Inr [OF d]
  have "length (rows X_full) = shape0 X_full" using L by simp
  then have "wf_array2 X" by (rule wf_dot [OF d])
  with L D show ?thesis by simp
qed

lemma build_data_matrix_product:
  assumes run: "build_data_matrix P imread Dim img_ids vw_ids = Inr (X, y)"
    and im: "wf_imread imread" and P: "wf_array2 P"
  shows "\<exists>X_full. load_full imread Dim img_ids vw_ids = Inr X_full \<and> wf_array2 X_full \<and>
           shape1 X_full = Dim \<and> dot X_full P = Inr X \<and> matrix_product X_full P X"
proof -
  from build_data_matrix_Inr [OF run] obtain X_full where
    l: "load_full imread Dim img_ids vw_ids = Inr X_full" and d: "dot X_full P = Inr X"
    by blast
  have wf: "wf_array2 X_full" using l im by (rule wf_load_full)
  have "length (rows P) = shape0 P" using P by (simp add: wf_array2_def)
  with d wf have "matrix_product X_full P X" by (rule dot_matrix_product)
  with l d wf load_full_Inr [OF l] show ?thesis by blast
qed

lemma ex_train:
  "build_data_matrix ex_P ex_imread 2 [1] [1] =
     Inr (\<lparr>shape0 = 2, shape1 = 2, rows = [[Fin (1363 / 20), Fin 100], [Fin 50, Fin 100]]\<rparr>,
          [Fin 0, Fin 1])"
  by code_simp

lemma ex_test:
  "build_data_matrix ex_P ex_imread 2 [2] [1] =
     Inr (\<lparr>shape0 = 2, shape1 = 2, rows = [[Fin 3, Fin 4], [Fin 305, Fin 100]]\<rparr>,
          [Fin 0, Fin 1])"
  by code_simp

text \<open>
  Claim C10. Whatever ids it is given, the label vector that \<open>build_data_matrix\<close>
  returns has the even length \<open>2 * |img_ids| * |view_ids|\<close>, which is the number of
  rows of the returned sample matrix; its first half, at the positions of the \<open>M-\<close>
  file names, is 0 and its second half, at the positions of the \<open>W-\<close> file names, is 1.
\<close>

theorem build_data_matrix_balanced:
  assumes "build_data_matrix P imread Dim img_ids vw_ids = Inr (X, y)"
  shows "length y = 2 * (length img_ids * length vw_ids) \<and>
         shape0 X = length y \<and> length (rows X) = length y \<and>
         y = replicate (length img_ids * length vw_ids) (Fin 0) @
             replicate (length img_ids * length vw_ids) (Fin 1) \<and>
         (\<forall>i. i < length img_ids * length vw_ids \<longrightarrow>
            y ! i = Fin 0 \<and>
            list_fn_of img_ids vw_ids ! i = build_list_fn ''M-'' img_ids vw_ids ! i) \<and>
         (\<forall>i. length img_ids * length vw_ids \<le> i \<and> i < 2 * (length img_ids * length vw_ids) \<longrightarrow>
            y ! i = Fin 1 \<and>
            list_fn_of img_ids vw_ids ! i =
              build_list_fn ''W-'' img_ids vw_ids ! (i - length img_ids * length vw_ids))"
proof -
  let ?k = "length img_ids * length vw_ids"
  from build_data_matrix_Inr [OF assms]
  have y: "y = replicate ?k (Fin 0) @ replicate ?k (Fin 1)" by blast
  note S = build_data_matrix_shape [OF assms]
  have len: "length y = 2 * ?k" using y by simp
  have "length (rows X) = shape0 X" using S by (simp add: wf_array2_def)
  moreover have "y ! i = Fin 0" if "i < ?k" for i
    using that y by (simp add: nth_append)
  moreover have "y ! i = Fin 1" if "?k \<le> i" "i < 2 * ?k" for i
    using that y by (simp add: nth_append)
  ultimately show ?thesis
    using y len S by (simp add: nth_list_fn_of)
qed

theorem build_data_matrix_balanced_witness:
  "\<exists>X y. build_data_matrix ex_P ex_imread 2 [1] [1] = Inr (X, y) \<and>
         length y = 2 \<and> shape0 X = 2 \<and> y = [Fin 0, Fin 1]"
  using build_data_matrix_balanced [OF ex_train] ex_train by simp

text \<open>
  Claim C4. Row \<open>i\<close> of the sample matrix that \<open>build_data_matrix\<close> returns is the
  vectorization of the image read from the \<open>i\<close>-th name of the concatenated list,
  multiplied by the projection matrix, and \<open>y[i]\<close> is the label of the category of
  that name: 0 for a name of the \<open>M-\<close> list, 1 for a name of the \<open>W-\<close> list.
\<close>

theorem build_data_matrix_aligned:
  assumes "build_data_matrix P imread Dim img_ids vw_ids = Inr (X, y)"
    and "i < 2 * (length img_ids * length vw_ids)"
  shows "\<exists>v. vectorize_img imread Dim (list_fn_of img_ids vw_ids ! i) = Inr v \<and>
             rows X ! i = vec_mat (rows v ! 0) P \<and>
             (if i < length img_ids * length vw_ids
              then list_fn_of img_ids vw_ids ! i = build_list_fn ''M-'' img_ids vw_ids ! i \<and>
                   y ! i = Fin 0
              else list_fn_of img_ids vw_ids ! i =
                     build_list_fn ''W-'' img_ids vw_ids ! (i - length img_ids * length vw_ids) \<and>
                   y ! i = Fin 1)"
proof -
  let ?k = "length img_ids * length vw_ids"
  from build_data_matrix_Inr [OF assms(1)] obtain X_full where
    l: "load_full imread Dim img_ids vw_ids = Inr X_full" and d: "dot X_full P = Inr X" and
    y: "y = replicate ?k (Fin 0) @ replicate ?k (Fin 1)"
    by blast
  note L = load_full_Inr [OF l] and D = dot_Inr [OF d]
  from L assms(2) obtain v where
    v: "vectorize_img imread Dim (list_fn_of img_ids vw_ids ! i) = Inr v" and
    r: "rows X_full ! i = rows v ! 0"
    by blast
  have "rows X ! i = vec_mat (rows X_full ! i) P"
    using D L assms(2) by simp
  then have "rows X ! i = vec_mat (rows v ! 0) P" using r by simp
  moreover have "y ! i = (if i < ?k then Fin 0 else Fin 1)"
    using y assms(2) by (simp add: nth_append)
  ultimately show ?thesis
    using v nth_list_fn_of [OF assms(2)] by auto
qed

theorem build_data_matrix_aligned_witness:
  "\<exists>X y v. build_data_matrix ex_P ex_imread 2 [1] [1] = Inr (X, y) \<and>
     vectorize_img ex_imread 2 ''../../data/AR/W-001-01.bmp'' = Inr v \<and>
     rows v = [[Fin 0, Fin 50]] \<and> rows X ! 1 = [Fin 50, Fin 100] \<and> y ! 1 = Fin 1"
proof -
  have fn: "list_fn_of [1] [1] ! 1 = ''../../data/AR/W-001-01.bmp''"
    by code_simp
  have v: "vectorize_img ex_imread 2 ''../../data/AR/W-001-01.bmp'' =
      Inr \<lparr>shape0 = 1, shape1 = 2, rows = [[Fin 0, Fin 50]]\<rparr>"
    by code_simp
  have "(1::nat) < 2 * (length [1::int] * length [1::int])" by simp
  from build_data_matrix_aligned [OF ex_train this]
  show ?thesis using ex_train by (simp add: fn v)
qed

subsection \<open>The cell up to the classifier\<close>

lemma prepare_Inr:
  assumes "prepare P imread Dim tr_ids te_ids vw_ids = Inr s"
  shows "\<exists>A B. build_data_matrix P imread Dim tr_ids vw_ids = Inr (A, y_train s) \<and>
               build_data_matrix P imread Dim te_ids vw_ids = Inr (B, y_test s) \<and>
               x_mean s = mean_axis0 A \<and> x_var s = var_axis0 A \<and>
               feature_extraction (x_mean s) (x_var s) A = Inr (X_train s) \<and>
               feature_extraction (x_mean s) (x_var s) B = Inr (X_test s)"
  using assms by (auto simp: prepare_def Let_def split: sum.splits prod.splits)

lemma length_mean_axis0: "length (mean_axis0 A) = shape1 A"
  by (simp add: mean_axis0_def)

lemma length_var_axis0: "length (var_axis0 A) = shape1 A"
  by (simp add: var_axis0_def)

lemma prepare_returns:
  assumes A: "build_data_matrix P imread Dim tr_ids vw_ids = Inr (A, ya)"
    and B: "build_data_matrix P imread Dim te_ids vw_ids = Inr (B, yb)"
  shows "\<exists>s. prepare P imread Dim tr_ids te_ids vw_ids = Inr s"
proof -
  note SA = build_data_matrix_shape [OF A] and SB = build_data_matrix_shape [OF B]
  let ?m = "mean_axis0 A" and ?v = "var_axis0 A"
  have "\<exists>Y. feature_extraction ?m ?v A = Inr Y"
    by (simp add: feature_extraction_same length_mean_axis0 length_var_axis0)
  moreover have "\<exists>Z. feature_extraction ?m ?v B = Inr Z"
    using SA SB by (simp add: feature_extraction_same length_mean_axis0 length_var_axis0)
  ultimately show ?thesis
    using A B by (auto simp: prepare_def Let_def)
qed

lemma run_experiment_prepared:
  "prepare P imread Dim tr_ids te_ids vw_ids = Inr s \<Longrightarrow>
   run_experiment P imread clf Dim tr_ids te_ids vw_ids =
     (case clf (X_train s) (y_train s) (X_test s) of
        Inl e \<Rightarrow> Inl e
      | Inr y_pred \<Rightarrow> accuracy_line (y_test s) y_pred)"
  by (simp add: run_experiment_def)

lemma ex_mean: "mean_axis0 ex_X_train_full = [Fin (2363 / 40), Fin 100]"
  by code_simp

lemma ex_var: "var_axis0 ex_X_train_full = [Fin (131769 / 1600), Fin 0]"
  by code_simp

lemma ex_fe_train:
  "feature_extraction [Fin (2363 / 40), Fin 100] [Fin (131769 / 1600), Fin 0] ex_X_train_full =
   Inr \<lparr>shape0 = 2, shape1 = 2, rows = [[Fin (40 / 363), NaN], [Fin (- (40 / 363)), NaN]]\<rparr>"
  by code_simp

lemma ex_fe_test:
  "feature_extraction [Fin (2363 / 40), Fin 100] [Fin (131769 / 1600), Fin 0]
      \<lparr>shape0 = 2, shape1 = 2, rows = [[Fin 3, Fin 4], [Fin 305, Fin 100]]\<rparr> =
   Inr \<lparr>shape0 = 2, shape1 = 2, rows = [[Fin (- (89720 / 131769)), NInf], [Fin (393480 / 131769), NaN]]\<rparr>"
  by code_simp

lemma ex_prepare:
  "prepare ex_P ex_imread 2 [1] [2] [1] =
     Inr \<lparr>x_mean = [Fin (2363 / 40), Fin 100], x_var = [Fin (131769 / 1600), Fin 0],
         X_train = \<lparr>shape0 = 2, shape1 = 2, rows = [[Fin (40 / 363), NaN], [Fin (- (40 / 363)), NaN]]\<rparr>,
         y_train = [Fin 0, Fin 1],
         X_test = \<lparr>shape0 = 2, shape1 = 2, rows = [[Fin (- (89720 / 131769)), NInf], [Fin (393480 / 131769), NaN]]\<rparr>,
         y_test = [Fin 0, Fin 1]\<rparr>"
  using ex_mean ex_var ex_fe_train ex_fe_test
  by (simp add: prepare_def ex_train ex_test ex_X_train_full_def)

text \<open>
  Claim C6. The sample matrix that leaves the dimensionality reducer is the matrix
  product of the full sample matrix (one row per image, \<open>D\<close> columns) and the
  projection matrix, and the cell uses one and the same projection matrix, which has
  \<open>D\<close> rows, for the training matrix and for the test matrix. The projection matrix
  is the parameter \<open>P\<close>: how \<open>np.random.randn\<close> draws it is outside the cell.
\<close>

theorem reducer_is_matrix_product:
  assumes run: "prepare P imread Dim tr_ids te_ids vw_ids = Inr s"
    and im: "wf_imread imread" and P: "wf_array2 P"
  shows "shape0 P = Dim \<and>
    (\<exists>F_train F_test A B.
       load_full imread Dim tr_ids vw_ids = Inr F_train \<and> shape1 F_train = Dim \<and>
       build_data_matrix P imread Dim tr_ids vw_ids = Inr (A, y_train s) \<and>
       dot F_train P = Inr A \<and> matrix_product F_train P A \<and>
       feature_extraction (x_mean s) (x_var s) A = Inr (X_train s) \<and>
       load_full imread Dim te_ids vw_ids = Inr F_test \<and> shape1 F_test = Dim \<and>
       build_data_matrix P imread Dim te_ids vw_ids = Inr (B, y_test s) \<and>
       dot F_test P = Inr B \<and> matrix_product F_test P B \<and>
       feature_extraction (x_mean s) (x_var s) B = Inr (X_test s))"
proof -
  from prepare_Inr [OF run] obtain A B where
    A: "build_data_matrix P imread Dim tr_ids vw_ids = Inr (A, y_train s)" and
    B: "build_data_matrix P imread Dim te_ids vw_ids = Inr (B, y_test s)" and
    fa: "feature_extraction (x_mean s) (x_var s) A = Inr (X_train s)" and
    fb: "feature_extraction (x_mean s) (x_var s) B = Inr (X_test s)"
    by blast
  from build_data_matrix_product [OF A im P] obtain F_train where
    ft: "load_full imread Dim tr_ids vw_ids = Inr F_train" "shape1 F_train = Dim"
        "dot F_train P = Inr A" "matrix_product F_train P A"
    by blast
  from build_data_matrix_product [OF B im P] obtain F_test where
    fe: "load_full imread Dim te_ids vw_ids = Inr F_test" "shape1 F_test = Dim"
        "dot F_test P = Inr B" "matrix_product F_test P B"
    by blast
  have "shape0 P = Dim" using build_data_matrix_shape [OF A] by simp
  with A B fa fb ft fe show ?thesis by blast
qed

theorem reducer_is_matrix_product_witness:
  "shape0 ex_P = 2 \<and>
   (\<exists>s F A. prepare ex_P ex_imread 2 [1] [2] [1] = Inr s \<and>
      load_full ex_imread 2 [1] [1] = Inr F \<and> dot F ex_P = Inr A \<and>
      matrix_product F ex_P A \<and>
      rows A = [[Fin (1363 / 20), Fin 100], [Fin 50, Fin 100]] \<and>
      feature_extraction (x_mean s) (x_var s) A = Inr (X_train s))"
proof -
  have im: "wf_imread ex_imread"
    by (auto simp: wf_imread_def ex_imread_def split: if_splits)
  have P: "wf_array2 ex_P"
    by (simp add: wf_array2_def ex_P_def)
  from reducer_is_matrix_product [OF ex_prepare im P]
  show ?thesis using ex_train by (fastforce simp: ex_prepare)
qed

text \<open>
  Claim C1. The mean and the variance of every feature are computed once, from the
  training sample matrix. For every sample matrix \<open>X\<close> with as many columns,
  \<open>feature_extraction\<close> returns \<open>(X - x_mean) / x_var\<close> entry by entry, and the cell
  applies it with the same stored mean and variance to the training matrix and to the
  test matrix.
\<close>

theorem feature_extraction_spec:
  assumes run: "prepare P imread Dim tr_ids te_ids vw_ids = Inr s"
  shows "length (x_mean s) = shape1 P \<and> length (x_var s) = shape1 P \<and>
    (\<exists>A B. build_data_matrix P imread Dim tr_ids vw_ids = Inr (A, y_train s) \<and>
           build_data_matrix P imread Dim te_ids vw_ids = Inr (B, y_test s) \<and>
           x_mean s = mean_axis0 A \<and> x_var s = var_axis0 A \<and>
           wf_array2 A \<and> shape1 A = shape1 P \<and> wf_array2 B \<and> shape1 B = shape1 P \<and>
           feature_extraction (x_mean s) (x_var s) A = Inr (X_train s) \<and>
           feature_extraction (x_mean s) (x_var s) B = Inr (X_test s)) \<and>
    (\<forall>X. wf_array2 X \<and> shape1 X = shape1 P \<longrightarrow>
       (\<exists>Y. feature_extraction (x_mean s) (x_var s) X = Inr Y \<and>
            shape0 Y = shape0 X \<and> shape1 Y = shape1 X \<and>
            (\<forall>i < shape0 X. \<forall>j < shape1 X.
               rows Y ! i ! j = fdiv (fsub (rows X ! i ! j) (x_mean s ! j)) (x_var s ! j))))"
proof -
  from prepare_Inr [OF run] obtain A B where
    A: "build_data_matrix P imread Dim tr_ids vw_ids = Inr (A, y_train s)" and
    B: "build_data_matrix P imread Dim te_ids vw_ids = Inr (B, y_test s)" and
    st: "x_mean s = mean_axis0 A" "x_var s = var_axis0 A" and
    fa: "feature_extraction (x_mean s) (x_var s) A = Inr (X_train s)" and
    fb: "feature_extraction (x_mean s) (x_var s) B = Inr (X_test s)"
    by blast
  note SA = build_data_matrix_shape [OF A] and SB = build_data_matrix_shape [OF B]
  have len: "length (x_mean s) = shape1 P" "length (x_var s) = shape1 P"
    using st SA by (simp_all add: length_mean_axis0 length_var_axis0)
  have "\<exists>Y. feature_extraction (x_mean s) (x_var s) X = Inr Y \<and>
            shape0 Y = shape0 X \<and> shape1 Y = shape1 X \<and>
            (\<forall>i < shape0 X. \<forall>j < shape1 X.
               rows Y ! i ! j = fdiv (fsub (rows X ! i ! j) (x_mean s ! j)) (x_var s ! j))"
    if "wf_array2 X" "shape1 X = shape1 P" for X
    using feature_extraction_elementwise [of X "x_mean s" "x_var s"] that len by auto
  with A B st fa fb SA SB len show ?thesis by blast
qed

theorem feature_extraction_spec_witness:
  "\<exists>s A Y. prepare ex_P ex_imread 2 [1] [2] [1] = Inr s \<and>
     x_mean s = mean_axis0 A \<and> x_var s = var_axis0 A \<and>
     x_mean s = [Fin (2363 / 40), Fin 100] \<and>
     build_data_matrix ex_P ex_imread 2 [1] [1] = Inr (A, y_train s) \<and>
     feature_extraction (x_mean s) (x_var s) A = Inr (X_train s) \<and>
     feature_extraction (x_mean s) (x_var s) \<lparr>shape0 = 1, shape1 = 2, rows = [[Fin 1, Fin 100]]\<rparr> = Inr Y \<and>
     rows Y ! 0 ! 0 = fdiv (fsub (Fin 1) (x_mean s ! 0)) (x_var s ! 0)"
proof -
  let ?X = "\<lparr>shape0 = 1, shape1 = 2, rows = [[Fin 1, Fin 100]]\<rparr>"
  obtain s where s: "prepare ex_P ex_imread 2 [1] [2] [1] = Inr s"
    and m: "x_mean s = [Fin (2363 / 40), Fin 100]"
    by (simp add: ex_prepare)
  note spec = feature_extraction_spec [OF s]
  have wf: "wf_array2 ?X" "shape1 ?X = shape1 ex_P" "0 < shape0 ?X" "0 < shape1 ?X"
    by (simp_all add: wf_array2_def ex_P_def)
  from spec obtain A where
    "build_data_matrix ex_P ex_imread 2 [1] [1] = Inr (A, y_train s)"
    "x_mean s = mean_axis0 A" "x_var s = var_axis0 A"
    "feature_extraction (x_mean s) (x_var s) A = Inr (X_train s)"
    by blast
  moreover from spec wf obtain Y where
    "feature_extraction (x_mean s) (x_var s) ?X = Inr Y"
    "rows Y ! 0 ! 0 = fdiv (fsub (rows ?X ! 0 ! 0) (x_mean s ! 0)) (x_var s ! 0)"
    by blast
  ultimately show ?thesis using s m by (intro exI [of _ s] exI [of _ A] exI [of _ Y]) simp
qed

lemma run_experiment_rest:
  "run_experiment P imread clf Dim tr_ids te_ids vw_ids =
     (case build_data_matrix P imread Dim tr_ids vw_ids of
        Inl e \<Rightarrow> Inl e
      | Inr (A, ya) \<Rightarrow>
          rest_of_cell P imread clf Dim te_ids vw_ids A ya (mean_axis0 A) (var_axis0 A))"
  by (simp add: run_experiment_def prepare_def rest_of_cell_def Let_def
      split: sum.splits prod.splits)

lemma not_all_finite:
  assumes "wf_array2 Y" and "i < shape0 Y" and "j < shape1 Y" and "\<not> is_finite (rows Y ! i ! j)"
  shows "\<not> all_finite Y"
proof -
  have i: "i < length (rows Y)" using assms(1,2) by (simp add: wf_array2_def)
  then have r: "rows Y ! i \<in> set (rows Y)" by simp
  then have "length (rows Y ! i) = shape1 Y" using assms(1) by (simp add: wf_array2_def)
  then have "rows Y ! i ! j \<in> set (rows Y ! i)" using assms(3) by simp
  with r assms(4) show ?thesis
    by (auto simp: all_finite_def list_all_iff)
qed

text \<open>
  Claim C2, as stated, fails: the harness does crash. In the small run the two training
  rows hold the same value in the second column, so the variance stored for it is zero
  (in float64 as well: the sum of two equal values and its half are exact). The
  transform returns, with a NaN in that column of both rows, and the classifier's
  \<open>fit\<close> rejects this matrix with a \<open>ValueError\<close>: the run ends there and no
  accuracy is printed.
\<close>

theorem zero_variance_aborts_run:
  "build_data_matrix ex_P ex_imread 2 [1] [1] = Inr (ex_X_train_full, [Fin 0, Fin 1]) \<and>
   var_axis0 ex_X_train_full ! 1 = Fin 0 \<and>
   feature_extraction (mean_axis0 ex_X_train_full) (var_axis0 ex_X_train_full) ex_X_train_full =
     Inr \<lparr>shape0 = 2, shape1 = 2, rows = [[Fin (40 / 363), NaN], [Fin (- (40 / 363)), NaN]]\<rparr> \<and>
   run_experiment ex_P ex_imread (fit_predict always_zero) 2 [1] [2] [1] = Inl ValueError"
proof -
  have "run_experiment ex_P ex_imread (fit_predict always_zero) 2 [1] [2] [1] = Inl ValueError"
    by (simp add: run_experiment_prepared [OF ex_prepare] fit_predict_def all_finite_def)
  then show ?thesis
    using ex_train ex_fe_train by (simp add: ex_mean ex_var ex_X_train_full_def [symmetric])
qed

text \<open>
  Claim C2, amended. For every training matrix with at least one row and every stored
  mean and variance (whatever numpy has computed for them) whose variance is zero in a
  column, the transform divides with no guard and does not raise: every entry of that
  column of the transformed training matrix and of the transformed test matrix is an
  infinity or a NaN, and these two matrices are, as they are, what the classifier is
  called with. The classifier's \<open>fit\<close>, which validates its training matrix, then
  raises a \<open>ValueError\<close>, so the run ends without a reported accuracy.
\<close>

theorem zero_variance_propagates:
  assumes A: "wf_array2 A" "shape1 A = shape1 P" "0 < shape0 A"
    and B: "build_data_matrix P imread Dim te_ids vw_ids = Inr (B, yb)"
    and st: "length m = shape1 P" "length v = shape1 P"
    and j: "j < shape1 P" and z: "v ! j = Fin 0"
  shows "\<exists>Xtr Xte. feature_extraction m v A = Inr Xtr \<and> feature_extraction m v B = Inr Xte \<and>
           shape0 Xtr = shape0 A \<and> shape0 Xte = shape0 B \<and>
           (\<forall>i < shape0 A. \<not> is_finite (rows Xtr ! i ! j)) \<and>
           (\<forall>i < shape0 B. \<not> is_finite (rows Xte ! i ! j)) \<and>
           (\<forall>clf. rest_of_cell P imread clf Dim te_ids vw_ids A ya m v =
              (case clf Xtr ya Xte of
                 Inl e \<Rightarrow> Inl e
               | Inr y_pred \<Rightarrow> accuracy_line yb y_pred)) \<and>
           (\<forall>est. rest_of_cell P imread (fit_predict est) Dim te_ids vw_ids A ya m v =
              Inl ValueError)"
proof -
  note SB = build_data_matrix_shape [OF B]
  have len: "length v = length m" using st by simp
  have col: "\<exists>Y. feature_extraction m v X = Inr Y \<and> wf_array2 Y \<and> shape0 Y = shape0 X \<and>
               shape1 Y = shape1 X \<and> (\<forall>i < shape0 X. \<not> is_finite (rows Y ! i ! j))"
    if X: "wf_array2 X" "shape1 X = shape1 P" for X
  proof -
    have mX: "shape1 X = length m" using X st by simp
    from feature_extraction_elementwise [OF X(1) mX len] obtain Y where
      Y: "feature_extraction m v X = Inr Y" "wf_array2 Y" "shape0 Y = shape0 X"
         "shape1 Y = shape1 X" and
      el: "\<forall>i < shape0 X. \<forall>j < shape1 X.
             rows Y ! i ! j = fdiv (fsub (rows X ! i ! j) (m ! j)) (v ! j)"
      by blast
    have "\<not> is_finite (rows Y ! i ! j)" if "i < shape0 X" for i
    proof -
      have "rows Y ! i ! j = fdiv (fsub (rows X ! i ! j) (m ! j)) (Fin 0)"
        using el that j X(2) z by simp
      then show ?thesis by (simp add: fdiv_zero_not_finite)
    qed
    with Y show ?thesis by blast
  qed
  from col [OF A(1) A(2)] obtain Xtr where
    Xtr: "feature_extraction m v A = Inr Xtr" "wf_array2 Xtr" "shape0 Xtr = shape0 A"
         "shape1 Xtr = shape1 A" and
    ntr: "\<forall>i < shape0 A. \<not> is_finite (rows Xtr ! i ! j)"
    by blast
  from col [of B] SB obtain Xte where
    Xte: "feature_extraction m v B = Inr Xte" "shape0 Xte = shape0 B" and
    nte: "\<forall>i < shape0 B. \<not> is_finite (rows Xte ! i ! j)"
    by blast
  have rest: "rest_of_cell P imread clf Dim te_ids vw_ids A ya m v =
      (case clf Xtr ya Xte of Inl e \<Rightarrow> Inl e | Inr y_pred \<Rightarrow> accuracy_line yb y_pred)" for clf
    by (simp add: rest_of_cell_def Xtr(1) Xte(1) B)
  have "\<not> all_finite Xtr"
    using Xtr(2) _ _ ntr [rule_format, OF A(3)]
    by (rule not_all_finite) (simp_all add: Xtr A j)
  then have "rest_of_cell P imread (fit_predict est) Dim te_ids vw_ids A ya m v = Inl ValueError"
    for est
    by (simp add: rest fit_predict_def)
  with Xtr Xte ntr nte rest show ?thesis by blast
qed

theorem zero_variance_propagates_witness:
  "\<exists>Xtr Xte.
     feature_extraction [Fin (2363 / 40), Fin 100] [Fin (131769 / 1600), Fin 0] ex_X_train_full = Inr Xtr \<and>
     feature_extraction [Fin (2363 / 40), Fin 100] [Fin (131769 / 1600), Fin 0]
       \<lparr>shape0 = 2, shape1 = 2, rows = [[Fin 3, Fin 4], [Fin 305, Fin 100]]\<rparr> = Inr Xte \<and>
     \<not> is_finite (rows Xtr ! 0 ! 1) \<and> \<not> is_finite (rows Xtr ! 1 ! 1) \<and>
     \<not> is_finite (rows Xte ! 0 ! 1) \<and> \<not> is_finite (rows Xte ! 1 ! 1) \<and>
     rest_of_cell ex_P ex_imread (fit_predict always_zero) 2 [2] [1] ex_X_train_full [Fin 0, Fin 1]
       [Fin (2363 / 40), Fin 100] [Fin (131769 / 1600), Fin 0] = Inl ValueError"
proof -
  let ?m = "[Fin (2363 / 40), Fin 100]" and ?v = "[Fin (131769 / 1600), Fin 0]"
  let ?B = "\<lparr>shape0 = 2, shape1 = 2, rows = [[Fin 3, Fin 4], [Fin 305, Fin 100]]\<rparr>"
  have A: "wf_array2 ex_X_train_full" "shape1 ex_X_train_full = shape1 ex_P"
    "0 < shape0 ex_X_train_full"
    by (simp_all add: wf_array2_def ex_X_train_full_def ex_P_def)
  have st: "length ?m = shape1 ex_P" "length ?v = shape1 ex_P" "1 < shape1 ex_P" "?v ! 1 = Fin 0"
    by (simp_all add: ex_P_def)
  from zero_variance_propagates [OF A ex_test st, of "[Fin 0, Fin 1]"]
  obtain Xtr Xte where
    f: "feature_extraction ?m ?v ex_X_train_full = Inr Xtr" "feature_extraction ?m ?v ?B = Inr Xte"
    and tr: "\<forall>i < shape0 ex_X_train_full. \<not> is_finite (rows Xtr ! i ! 1)"
    and te: "\<forall>i < shape0 ?B. \<not> is_finite (rows Xte ! i ! 1)"
    and r: "\<forall>est. rest_of_cell ex_P ex_imread (fit_predict est) 2 [2] [1] ex_X_train_full
              [Fin 0, Fin 1] ?m ?v = Inl ValueError"
    by blast
  have "\<not> is_finite (rows Xtr ! 0 ! 1)" "\<not> is_finite (rows Xtr ! 1 ! 1)"
    using tr by (simp_all add: ex_X_train_full_def)
  moreover have "\<not> is_finite (rows Xte ! 0 ! 1)" "\<not> is_finite (rows Xte ! 1 ! 1)"
    using te by simp_all
  ultimately show ?thesis using f r by blast
qed

subsection \<open>Applying the transform again\<close>

text \<open>
  Claim C3, as stated, fails: the transform applied to its own result, with the same
  stored mean and variance, does not give that result again. For the training matrix
  with the single column \<open>(1, 3)\<close>, whose mean is 2 and whose variance is 1, the first
  application gives \<open>(-1, 1)\<close> and the second \<open>(-3, -1)\<close>.
\<close>

theorem feature_extraction_not_idempotent:
  "feature_extraction (mean_axis0 ex_X) (var_axis0 ex_X) ex_X =
     Inr \<lparr>shape0 = 2, shape1 = 1, rows = [[Fin (- 1)], [Fin 1]]\<rparr> \<and>
   feature_extraction (mean_axis0 ex_X) (var_axis0 ex_X)
       \<lparr>shape0 = 2, shape1 = 1, rows = [[Fin (- 1)], [Fin 1]]\<rparr> =
     Inr \<lparr>shape0 = 2, shape1 = 1, rows = [[Fin (- 3)], [Fin (- 1)]]\<rparr> \<and>
   \<lparr>shape0 = 2, shape1 = 1, rows = [[Fin (- 3)], [Fin (- 1)]]\<rparr> \<noteq>
     \<lparr>shape0 = 2, shape1 = 1, rows = [[Fin (- 1)], [Fin 1 :: npfloat]]\<rparr>"
proof -
  have m: "mean_axis0 ex_X = [Fin 2]" and v: "var_axis0 ex_X = [Fin 1]"
    by code_simp+
  have "feature_extraction [Fin 2] [Fin 1] ex_X =
      Inr \<lparr>shape0 = 2, shape1 = 1, rows = [[Fin (- 1)], [Fin 1]]\<rparr>"
    by code_simp
  moreover have "feature_extraction [Fin 2] [Fin 1]
      \<lparr>shape0 = 2, shape1 = 1, rows = [[Fin (- 1)], [Fin 1]]\<rparr> =
      Inr \<lparr>shape0 = 2, shape1 = 1, rows = [[Fin (- 3)], [Fin (- 1)]]\<rparr>"
    by code_simp
  ultimately show ?thesis by (simp add: m v)
qed

lemma identity_row:
  assumes "length r = length m" and "length v = length m"
    and "\<forall>j < length m. m ! j = Fin 0 \<and> v ! j = Fin 1"
  shows "map2 fdiv (map2 fsub r m) v = r"
  using assms by (intro nth_equalityI) (simp_all add: fsub_zero fdiv_one)

text \<open>
  Claim C3, amended. Applied a second time with the same stored mean and variance, the
  transform returns \<open>((X - x_mean) / x_var - x_mean) / x_var\<close> entry by entry. This is
  the result of the first application when the stored mean is 0 and the stored variance
  is 1 in every column: the transform is then the identity.
\<close>

theorem feature_extraction_twice:
  assumes wf: "wf_array2 X" and m: "shape1 X = length m" and v: "length v = length m"
  shows "\<exists>Y Z. feature_extraction m v X = Inr Y \<and> feature_extraction m v Y = Inr Z \<and>
     shape0 Z = shape0 X \<and> shape1 Z = shape1 X \<and>
     (\<forall>i < shape0 X. \<forall>j < shape1 X.
        rows Z ! i ! j =
          fdiv (fsub (fdiv (fsub (rows X ! i ! j) (m ! j)) (v ! j)) (m ! j)) (v ! j)) \<and>
     ((\<forall>j < length m. m ! j = Fin 0 \<and> v ! j = Fin 1) \<longrightarrow> Y = X \<and> Z = Y)"
proof -
  from feature_extraction_elementwise [OF wf m v] obtain Y where
    Y: "feature_extraction m v X = Inr Y" "wf_array2 Y" "shape0 Y = shape0 X" "shape1 Y = shape1 X"
    and elY: "\<forall>i < shape0 X. \<forall>j < shape1 X.
       rows Y ! i ! j = fdiv (fsub (rows X ! i ! j) (m ! j)) (v ! j)"
    by blast
  have mY: "shape1 Y = length m" using Y m by simp
  from feature_extraction_elementwise [OF Y(2) mY v] obtain Z where
    Z: "feature_extraction m v Y = Inr Z" "shape0 Z = shape0 Y" "shape1 Z = shape1 Y"
    and elZ: "\<forall>i < shape0 Y. \<forall>j < shape1 Y.
       rows Z ! i ! j = fdiv (fsub (rows Y ! i ! j) (m ! j)) (v ! j)"
    by blast
  have el: "\<forall>i < shape0 X. \<forall>j < shape1 X.
      rows Z ! i ! j =
        fdiv (fsub (fdiv (fsub (rows X ! i ! j) (m ! j)) (v ! j)) (m ! j)) (v ! j)"
    using elY elZ Y by simp
  have idem: "Y = X \<and> Z = Y" if id: "\<forall>j < length m. m ! j = Fin 0 \<and> v ! j = Fin 1"
  proof -
    have same: "feature_extraction m v W = Inr W" if "wf_array2 W" "shape1 W = length m" for W
    proof -
      have "map (\<lambda>r. map2 fdiv (map2 fsub r m) v) (rows W) = map (\<lambda>r. r) (rows W)"
        using that v id by (intro map_cong refl identity_row) (simp_all add: wf_array2_def)
      then show ?thesis
        using that v by (simp add: feature_extraction_same)
    qed
    from same [OF wf m] Y have "Y = X" by simp
    moreover from same [OF Y(2) mY] Z have "Z = Y" by simp
    ultimately show ?thesis by simp
  qed
  from Y Z el idem show ?thesis by auto
qed

theorem feature_extraction_twice_witness:
  "\<exists>Y Z. feature_extraction [Fin 0] [Fin 1] ex_X = Inr Y \<and>
         feature_extraction [Fin 0] [Fin 1] Y = Inr Z \<and>
         rows Z ! 1 ! 0 = fdiv (fsub (fdiv (fsub (Fin 3) (Fin 0)) (Fin 1)) (Fin 0)) (Fin 1) \<and>
         Y = ex_X \<and> Z = Y"
proof -
  have wf: "wf_array2 ex_X" "shape1 ex_X = length [Fin 0]" "length [Fin 1] = length [Fin 0]"
    by (simp_all add: wf_array2_def ex_X_def)
  have id: "\<forall>j < length [Fin 0]. [Fin 0] ! j = Fin 0 \<and> [Fin 1] ! j = Fin 1" by simp
  have i: "1 < shape0 ex_X" "0 < shape1 ex_X" "rows ex_X ! 1 ! 0 = Fin 3"
    by (simp_all add: ex_X_def)
  from feature_extraction_twice [OF wf] obtain Y Z where
    "feature_extraction [Fin 0] [Fin 1] ex_X = Inr Y" "feature_extraction [Fin 0] [Fin 1] Y = Inr Z"
    "\<forall>i < shape0 ex_X. \<forall>j < shape1 ex_X.
        rows Z ! i ! j =
          fdiv (fsub (fdiv (fsub (rows ex_X ! i ! j) ([Fin 0] ! j)) ([Fin 1] ! j)) ([Fin 0] ! j)) ([Fin 1] ! j)"
    "(\<forall>j < length [Fin 0]. [Fin 0] ! j = Fin 0 \<and> [Fin 1] ! j = Fin 1) \<longrightarrow> Y = ex_X \<and> Z = Y"
    by blast
  with id i show ?thesis by (intro exI [of _ Y] exI [of _ Z]) force
qed

subsection \<open>Accuracy\<close>

lemma foldl_fadd_indicator:
  "foldl fadd (Fin a) (map (\<lambda>(x, y). if x = y then Fin 1 else Fin 0) zs) =
   Fin (a + of_nat (length (filter (\<lambda>(x, y). x = y) zs)))"
  by (induction zs arbitrary: a) (auto simp: algebra_simps)

lemma fsum_indicator:
  "fsum (map2 (\<lambda>a b. if a = b then Fin 1 else Fin 0) y_true y_pred) =
   Fin (of_nat (correct y_true y_pred))"
  using foldl_fadd_indicator [of 0 "zip y_true y_pred"]
  by (simp add: fsum_def correct_def)

lemma correct_le: "correct y_true y_pred \<le> min (length y_true) (length y_pred)"
proof -
  have "correct y_true y_pred \<le> length (zip y_true y_pred)"
    unfolding correct_def by (rule length_filter_le)
  then show ?thesis by simp
qed

lemma accuracy_score_value:
  assumes "length y_true = length y_pred" and "y_true \<noteq> []"
    and "list_all is_class_label y_true" and "list_all is_class_label y_pred"
  shows "accuracy_score y_true y_pred =
    Inr (Fin (of_nat (correct y_true y_pred) / of_nat (length y_true)))"
proof -
  have "y_pred \<noteq> []" using assms(1) assms(2) by auto
  then show ?thesis
    using assms by (simp add: accuracy_score_def fmean_def fsum_indicator)
qed

lemma round_half_even_near: "\<bar>of_int (round_half_even q) - q\<bar> \<le> 1 / 2"
proof -
  have "of_int \<lfloor>q\<rfloor> \<le> q" "q < of_int \<lfloor>q\<rfloor> + 1" by linarith+
  then show ?thesis by (auto simp: round_half_even_def Let_def)
qed

lemma round_half_even_bounds:
  assumes "0 \<le> q" and "q \<le> of_int N"
  shows "0 \<le> round_half_even q \<and> round_half_even q \<le> N"
proof -
  have f0: "0 \<le> \<lfloor>q\<rfloor>" using assms(1) by simp
  have fN: "\<lfloor>q\<rfloor> \<le> N" using assms(2) by (simp add: floor_le_iff)
  have "\<lfloor>q\<rfloor> + 1 \<le> N" if "0 < q - of_int \<lfloor>q\<rfloor>"
  proof -
    have "of_int \<lfloor>q\<rfloor> < q" using that by simp
    then have "of_int \<lfloor>q\<rfloor> < (of_int N :: rat)" using assms(2) by linarith
    then show ?thesis by simp
  qed
  then show ?thesis
    using f0 fN by (auto simp: round_half_even_def Let_def)
qed

lemma format_2f_nonneg:
  assumes "0 \<le> p"
  shows "format_2f (Fin p) =
    (let h = nat (round_half_even (p * 100))
     in digits (h div 100) @ ''.'' @ [digit_char (h mod 100 div 10), digit_char (h mod 10)])"
  using assms by (simp add: format_2f_def Let_def)

lemma fraction_correct:
  assumes "y_true \<noteq> []"
  shows "0 \<le> (of_nat (correct y_true y_pred) / of_nat (length y_true) :: rat) \<and>
         (of_nat (correct y_true y_pred) / of_nat (length y_true) :: rat) \<le> 1"
proof -
  have "0 < length y_true" using assms by simp
  moreover have "correct y_true y_pred \<le> length y_true"
    using correct_le [of y_true y_pred] by simp
  ultimately show ?thesis by simp
qed

lemma report_of_fraction:
  assumes "0 \<le> q" and "q \<le> 1"
  shows "\<exists>h. h \<le> 10000 \<and> \<bar>of_nat h / 100 - 100 * q\<bar> \<le> 1 / 200 \<and>
           format_2f (fmul (Fin 100) (Fin q)) =
             digits (h div 100) @ ''.'' @ [digit_char (h mod 100 div 10), digit_char (h mod 10)]"
proof -
  define h where "h = nat (round_half_even (100 * q * 100))"
  have pct: "0 \<le> 100 * q" "100 * q \<le> 100" using assms by simp_all
  have b: "0 \<le> round_half_even (100 * q * 100) \<and> round_half_even (100 * q * 100) \<le> 10000"
    using pct by (intro round_half_even_bounds) simp_all
  then have "nat (round_half_even (100 * q * 100)) \<le> nat 10000"
    by (intro nat_mono) simp
  then have h: "h \<le> 10000" by (simp add: h_def)
  have hh: "of_nat h = (of_int (round_half_even (100 * q * 100)) :: rat)"
    using b by (simp add: h_def)
  have "\<bar>of_int (round_half_even (100 * q * 100)) - 100 * q * 100\<bar> \<le> 1 / 2"
    by (rule round_half_even_near)
  then have near: "\<bar>of_nat h / 100 - 100 * q\<bar> \<le> 1 / 200"
    unfolding hh by (simp add: abs_le_iff field_simps)
  have "format_2f (fmul (Fin 100) (Fin q)) =
      digits (h div 100) @ ''.'' @ [digit_char (h mod 100 div 10), digit_char (h mod 10)]"
    using pct(1) by (simp add: format_2f_nonneg h_def Let_def)
  with h near show ?thesis by blast
qed

text \<open>
  Claim C7, as stated, fails for the two empty label vectors, which have equal length:
  the mean of no value is a NaN, 100 times a NaN is a NaN, which is no value in
  \<open>[0, 100]\<close>, and the line printed is \<open>Accuracy: nan %\<close>.
\<close>

theorem accuracy_of_no_sample:
  "accuracy_score [] [] = Inr NaN \<and> fmul (Fin 100) NaN = NaN \<and> \<not> is_percentage NaN \<and>
   accuracy_line [] [] = Inr ''Accuracy: nan %''"
  by (simp add: accuracy_score_def accuracy_line_def fmean_def fsum_def format_2f_def)

text \<open>
  Claim C7, amended. For every non-empty vector of true labels and every vector of
  predicted labels of the same length, the accuracy is the number of positions where the
  two agree divided by the length; 100 times it is a value in \<open>[0, 100]\<close>, and the
  line printed shows it as a percentage with two digits after the point: the hundredths
  \<open>h\<close> printed are at most 10000 and within half a hundredth of the value.
\<close>

theorem accuracy_line_spec:
  assumes len: "length y_true = length y_pred" and ne: "y_true \<noteq> []"
    and lt: "list_all is_class_label y_true" and lp: "list_all is_class_label y_pred"
  shows "\<exists>q h. accuracy_score y_true y_pred = Inr (Fin q) \<and>
           q = of_nat (correct y_true y_pred) / of_nat (length y_true) \<and>
           fmul (Fin 100) (Fin q) = Fin (100 * q) \<and> is_percentage (Fin (100 * q)) \<and>
           h \<le> 10000 \<and> \<bar>of_nat h / 100 - 100 * q\<bar> \<le> 1 / 200 \<and>
           accuracy_line y_true y_pred =
             Inr (''Accuracy: '' @ digits (h div 100) @ ''.'' @
                  [digit_char (h mod 100 div 10), digit_char (h mod 10)] @ '' %'')"
proof -
  define q :: rat where "q = of_nat (correct y_true y_pred) / of_nat (length y_true)"
  have acc: "accuracy_score y_true y_pred = Inr (Fin q)"
    unfolding q_def using assms by (rule accuracy_score_value)
  have q01: "0 \<le> q" "q \<le> 1"
    using fraction_correct [OF ne, of y_pred] by (simp_all add: q_def)
  from report_of_fraction [OF q01] obtain h where
    h: "h \<le> 10000" "\<bar>of_nat h / 100 - 100 * q\<bar> \<le> 1 / 200" and
    f: "format_2f (fmul (Fin 100) (Fin q)) =
          digits (h div 100) @ ''.'' @ [digit_char (h mod 100 div 10), digit_char (h mod 10)]"
    by blast
  have line: "accuracy_line y_true y_pred =
      Inr (''Accuracy: '' @ digits (h div 100) @ ''.'' @
           [digit_char (h mod 100 div 10), digit_char (h mod 10)] @ '' %'')"
    using f by (simp add: accuracy_line_def acc)
  show ?thesis
    using acc q_def q01 h line by (intro exI [of _ q] exI [of _ h]) simp
qed

theorem accuracy_line_spec_witness:
  "accuracy_score [Fin 0, Fin 1, Fin 1] [Fin 0, Fin 0, Fin 1] = Inr (Fin (2 / 3)) \<and>
   correct [Fin 0, Fin 1, Fin 1] [Fin 0, Fin 0, Fin 1] = 2 \<and>
   is_percentage (fmul (Fin 100) (Fin (2 / 3))) \<and>
   accuracy_line [Fin 0, Fin 1, Fin 1] [Fin 0, Fin 0, Fin 1] = Inr ''Accuracy: 66.67 %''"
proof -
  let ?t = "[Fin 0, Fin 1, Fin 1]" and ?p = "[Fin 0, Fin 0, Fin 1]"
  have c: "correct ?t ?p = 2" by (simp add: correct_def)
  have l: "list_all is_class_label ?t" "list_all is_class_label ?p" by simp_all
  from accuracy_line_spec [of ?t ?p, OF _ _ l] obtain q h where
    a: "accuracy_score ?t ?p = Inr (Fin q)" and q: "q = of_nat (correct ?t ?p) / of_nat (length ?t)"
    and p: "fmul (Fin 100) (Fin q) = Fin (100 * q)" "is_percentage (Fin (100 * q))"
    by auto
  have q': "q = 2 / 3" using q c by simp
  have f: "\<lfloor>20000 / 3 :: rat\<rfloor> = 6666"
    by (rule floor_unique) simp_all
  have r: "round_half_even (20000 / 3) = 6667"
    by (simp add: round_half_even_def Let_def f)
  have d: "digits 66 = ''66''" "digit_char 6 = CHR ''6''" "digit_char 7 = CHR ''7''"
    by (simp_all add: digits_lt100 digit_char_def)
  have "accuracy_line ?t ?p = Inr ''Accuracy: 66.67 %''"
    using a unfolding q' by (simp add: accuracy_line_def format_2f_def Let_def r d)
  with a p c show ?thesis unfolding q' by simp
qed

subsection \<open>The notebook's own run\<close>

lemma notebook_sizes:
  "length train_ids = 25 \<and> length test_ids = 24 \<and> length view_ids = 14 \<and>
   length (list_fn_of train_ids view_ids) = 700 \<and>
   length (list_fn_of test_ids view_ids) = 672 \<and> D = 19800 \<and> d = 1000"
  by (simp add: train_ids_def test_ids_def view_ids_def length_list_fn_of D_def d_def)

lemma is_class_label_labels:
  "list_all is_class_label (replicate k (Fin 0) @ replicate k (Fin 1))"
  by (auto simp: list_all_iff)

lemma notebook_test_labels:
  assumes "build_data_matrix P imread D test_ids view_ids = Inr (X, y)"
  shows "length y = 672 \<and> list_all is_class_label y"
proof -
  from build_data_matrix_Inr [OF assms]
  have y: "y = replicate (length test_ids * length view_ids) (Fin 0) @
               replicate (length test_ids * length view_ids) (Fin 1)"
    by blast
  have "length y = 672"
    unfolding y using notebook_sizes by simp
  moreover have "list_all is_class_label y"
    unfolding y by (rule is_class_label_labels)
  ultimately show ?thesis by simp
qed

lemma accuracy_line_Inr:
  assumes "accuracy_line y_true y_pred = Inr line"
  shows "length y_true = length y_pred \<and> list_all is_class_label y_true \<and>
         list_all is_class_label y_pred"
  using assms by (auto simp: accuracy_line_def accuracy_score_def split: sum.splits if_splits)

text \<open>
  In the notebook's own run the test labels are 672, so whatever the classifier
  predicts, a line that is printed shows a value between 0 and 100.
\<close>

lemma notebook_report:
  assumes "notebook P imread clf = Inr line"
  shows "\<exists>(q :: rat) h. 0 \<le> q \<and> q \<le> 1 \<and> h \<le> 10000 \<and> \<bar>of_nat h / 100 - 100 * q\<bar> \<le> 1 / 200 \<and>
           line = ''Accuracy: '' @ digits (h div 100) @ ''.'' @
                  [digit_char (h mod 100 div 10), digit_char (h mod 10)] @ '' %''"
proof -
  from assms obtain s y_pred where
    s: "prepare P imread D train_ids test_ids view_ids = Inr s" and
    l: "accuracy_line (y_test s) y_pred = Inr line"
    by (auto simp: notebook_def run_experiment_def split: sum.splits)
  from prepare_Inr [OF s] obtain B where
    "build_data_matrix P imread D test_ids view_ids = Inr (B, y_test s)" by blast
  from notebook_test_labels [OF this] have ne: "y_test s \<noteq> []" by auto
  define q :: rat where "q = of_nat (correct (y_test s) y_pred) / of_nat (length (y_test s))"
  from accuracy_line_Inr [OF l] ne
  have acc: "accuracy_score (y_test s) y_pred = Inr (Fin q)"
    unfolding q_def by (intro accuracy_score_value) simp_all
  have q01: "0 \<le> q" "q \<le> 1"
    using fraction_correct [OF ne, of y_pred] by (simp_all add: q_def)
  from report_of_fraction [OF q01] obtain h where
    "h \<le> 10000" "\<bar>of_nat h / 100 - 100 * q\<bar> \<le> 1 / 200"
    "format_2f (fmul (Fin 100) (Fin q)) =
       digits (h div 100) @ ''.'' @ [digit_char (h mod 100 div 10), digit_char (h mod 10)]"
    by blast
  moreover from this l acc have
    "line = ''Accuracy: '' @ digits (h div 100) @ ''.'' @
            [digit_char (h mod 100 div 10), digit_char (h mod 10)] @ '' %''"
    by (simp add: accuracy_line_def)
  ultimately show ?thesis using q01 by blast
qed

end
